theory Spec2Isabelle
  imports Complex_Main "HOL-Library.Sublist"
begin

section \<open>JavaScript built-ins used by the pipeline\<close>

text \<open>
  Strings are \<open>string\<close>: lists of 8-bit characters, the well-formed UTF-8 encoding of
  the text (a character outside ASCII is its byte sequence). JavaScript numbers are idealised as exact rationals: every number
  the pipeline computes is a small integer, a ratio of two of them, or a product with a
  decimal constant, and no statement below depends on rounding of doubles.
\<close>

text \<open>The character of a decimal digit \<open>d < 10\<close>.\<close>

definition digit_char :: "nat \<Rightarrow> char" where
  "digit_char d = ''0123456789'' ! d"

text \<open>\<open>String(n)\<close> for a non-negative integer \<open>n\<close>: its decimal digits.\<close>

function show_nat :: "nat \<Rightarrow> string" where
  "show_nat n = (if n < 10 then [digit_char n] else show_nat (n div 10) @ [digit_char (n mod 10)])"
  by pat_completeness auto
termination
  by (relation "measure id") auto

declare show_nat.simps [simp del]

text \<open>\<open>String(i)\<close> for an integer: a minus sign before the digits of a negative one.\<close>

definition show_int :: "int \<Rightarrow> string" where
  "show_int i = (if i < 0 then CHR ''-'' # show_nat (nat (- i)) else show_nat (nat i))"

text \<open>\<open>Math.round\<close>: the nearest integer, a tie going up.\<close>

definition math_round :: "rat \<Rightarrow> int" where
  "math_round x = \<lfloor>x + 1 / 2\<rfloor>"

text \<open>\<open>s.padStart(n, c)\<close> with a one-character filler.\<close>

definition padStart :: "nat \<Rightarrow> char \<Rightarrow> string \<Rightarrow> string" where
  "padStart n c s = replicate (n - length s) c @ s"

text \<open>\<open>s.split(sep)\<close> with a one-character separator: never empty, \<open>''''\<close> gives \<open>['''']\<close>.\<close>

fun split_on :: "char \<Rightarrow> string \<Rightarrow> string list" where
  "split_on sep [] = [[]]"
| "split_on sep (c # cs) =
     (if c = sep then [] # split_on sep cs
      else (case split_on sep cs of
              [] \<Rightarrow> [[c]]
            | w # ws \<Rightarrow> (c # w) # ws))"

text \<open>\<open>xs.join(sep)\<close>.\<close>

fun join :: "string \<Rightarrow> string list \<Rightarrow> string" where
  "join sep [] = []"
| "join sep [x] = x"
| "join sep (x # y # ys) = x @ sep @ join sep (y # ys)"

text \<open>
  The white space that \<open>s.trim()\<close> removes, in UTF-8: the code points of WhiteSpace and
  LineTerminator of ECMAScript. These are U+0009 to U+000D, U+0020, U+00A0, U+1680,
  U+2000 to U+200A, U+2028, U+2029, U+202F, U+205F, U+3000 and U+FEFF.
\<close>

definition whitespace :: "string list" where
  "whitespace =
    [[CHR 0x09], [CHR 0x0A], [CHR 0x0B], [CHR 0x0C], [CHR 0x0D], [CHR 0x20],
     [CHR 0xC2, CHR 0xA0], [CHR 0xE1, CHR 0x9A, CHR 0x80],
     [CHR 0xE2, CHR 0x80, CHR 0x80], [CHR 0xE2, CHR 0x80, CHR 0x81],
     [CHR 0xE2, CHR 0x80, CHR 0x82], [CHR 0xE2, CHR 0x80, CHR 0x83],
     [CHR 0xE2, CHR 0x80, CHR 0x84], [CHR 0xE2, CHR 0x80, CHR 0x85],
     [CHR 0xE2, CHR 0x80, CHR 0x86], [CHR 0xE2, CHR 0x80, CHR 0x87],
     [CHR 0xE2, CHR 0x80, CHR 0x88], [CHR 0xE2, CHR 0x80, CHR 0x89],
     [CHR 0xE2, CHR 0x80, CHR 0x8A], [CHR 0xE2, CHR 0x80, CHR 0xA8],
     [CHR 0xE2, CHR 0x80, CHR 0xA9], [CHR 0xE2, CHR 0x80, CHR 0xAF],
     [CHR 0xE2, CHR 0x81, CHR 0x9F], [CHR 0xE3, CHR 0x80, CHR 0x80],
     [CHR 0xEF, CHR 0xBB, CHR 0xBF]]"

text \<open>The length of the entry of \<open>ws\<close> that \<open>s\<close> starts with, 0 when it starts with none.\<close>

definition space_length :: "string list \<Rightarrow> string \<Rightarrow> nat" where
  "space_length ws s = (case find (\<lambda>w. prefix w s) ws of None \<Rightarrow> 0 | Some w \<Rightarrow> length w)"

text \<open>Entries of \<open>ws\<close> are removed from the start of \<open>s\<close> as long as it starts with one.\<close>

function strip_spaces :: "string list \<Rightarrow> string \<Rightarrow> string" where
  "strip_spaces ws s =
     (if space_length ws s = 0 then s else strip_spaces ws (drop (space_length ws s) s))"
  by pat_completeness auto
termination
proof (relation "measure (\<lambda>(ws, s). length s)")
  show "wf (measure (\<lambda>(ws, s). length s))"
    by simp
next
  fix ws :: "string list" and s :: string
  assume n: "space_length ws s \<noteq> 0"
  then obtain w where "find (\<lambda>w. prefix w s) ws = Some w" and "length w \<noteq> 0"
    by (auto simp: space_length_def split: option.splits)
  then have "prefix w s" and "w \<noteq> []"
    by (auto simp: find_Some_iff)
  then have "s \<noteq> []"
    by auto
  then show "((ws, drop (space_length ws s) s), (ws, s)) \<in> measure (\<lambda>(ws, s). length s)"
    using n by simp
qed

declare strip_spaces.simps [simp del]

text \<open>
  \<open>s.trim()\<close>: white space removed at the start, then at the end. In well-formed UTF-8 a
  string ends with a white-space character exactly when its bytes end with the
  character's bytes.
\<close>

definition trim :: "string \<Rightarrow> string" where
  "trim s = rev (strip_spaces (map rev whitespace) (rev (strip_spaces whitespace s)))"

text \<open>\<open>s.replace(pat, rep)\<close> with a string pattern: the first occurrence only.\<close>

fun replace_first :: "string \<Rightarrow> string \<Rightarrow> string \<Rightarrow> string" where
  "replace_first pat rep [] = (if pat = [] then rep else [])"
| "replace_first pat rep (c # cs) =
     (if prefix pat (c # cs) then rep @ drop (length pat) (c # cs)
      else c # replace_first pat rep cs)"

definition is_digit :: "char \<Rightarrow> bool" where
  "is_digit c = (c \<in> set ''0123456789'')"

text \<open>
  \<open>token.replace(/\d+%/, '')\<close>: the leftmost run of digits that is directly followed by
  a percent sign is removed together with the sign. The first argument holds the digits
  of the run being read, in reverse.
\<close>

fun strip_percent_from :: "string \<Rightarrow> string \<Rightarrow> string" where
  "strip_percent_from run [] = rev run"
| "strip_percent_from run (c # cs) =
     (if is_digit c then strip_percent_from (c # run) cs
      else if c = CHR ''%'' \<and> run \<noteq> [] then cs
      else rev run @ c # strip_percent_from [] cs)"

definition strip_percent :: "string \<Rightarrow> string" where
  "strip_percent s = strip_percent_from [] s"

section \<open>Data model (src/types/storyboard.ts)\<close>

datatype VideoTone = Inspirational | Educational | Playful | Direct

datatype BriefLength = Short | Medium | Long

record StoryBrief =
  idea :: string
  audience :: string
  tone :: VideoTone
  callToAction :: string
  length_brief :: BriefLength

datatype BackgroundStyle = Gradient string | Image string | Color string

datatype Overlay = Light | Dark

text \<open>The optional field \<open>cta\<close> is \<open>None\<close> when the property is absent (\<open>undefined\<close>).\<close>

record Scene =
  id_scene :: string
  title :: string
  narration :: string
  supportingPoint :: string
  duration :: rat
  background :: BackgroundStyle
  overlay :: Overlay
  cta :: "string option"

section \<open>Storyboard generator (generateStoryboard, src/lib/storyboard.ts)\<close>

text \<open>The palette: name and CSS value of each gradient.\<close>

definition gradients :: "(string \<times> string) list" where
  "gradients =
    [(''Aurora'',
      ''linear-gradient(135deg, rgba(17,24,39,1) 0%, rgba(59,130,246,1) 50%, rgba(236,72,153,1) 100%)''),
     (''Sunrise'',
      ''linear-gradient(135deg, rgba(248,113,113,1) 0%, rgba(253,186,116,1) 52%, rgba(163,230,53,1) 100%)''),
     (''Neon Night'',
      ''linear-gradient(135deg, rgba(124,58,237,1) 0%, rgba(56,189,248,1) 45%, rgba(34,197,94,1) 100%)''),
     (''Sunkissed'',
      ''linear-gradient(135deg, rgba(251,146,60,1) 0%, rgba(249,115,22,1) 45%, rgba(244,63,94,1) 100%)''),
     (''Slate'',
      ''linear-gradient(135deg, rgba(15,23,42,1) 0%, rgba(71,85,105,1) 52%, rgba(148,163,184,1) 100%)'')]"

record ToneProfile =
  hook :: "string list"
  support :: "string list"
  close :: "string list"
  overlay_profile :: Overlay

text \<open>The typographic apostrophe (U+2019) and the long dash (U+2014), in UTF-8.\<close>

definition rsquo :: string where
  "rsquo = [CHR 0xE2, CHR 0x80, CHR 0x99]"

definition mdash :: string where
  "mdash = [CHR 0xE2, CHR 0x80, CHR 0x94]"

fun toneProfiles :: "VideoTone \<Rightarrow> ToneProfile" where
  "toneProfiles Inspirational =
    \<lparr>hook =
       [''Imagine what happens when creativity meets automation.'',
        ''This is your sign to share your next big vision.'',
        ''Turn ideas into impact with the right momentum.''],
     support =
       [''Show up consistently with content that energizes your audience.'',
        ''Pair your message with visuals that spark emotion.'',
        ''Deliver storytelling that keeps people watching to the very end.''],
     close =
       [''Ready to go from idea to post in minutes?'',
        ''Let your brand speak with clarity every time you publish.'',
        ''It is your turn to lead the conversation on your niche.''],
     overlay_profile = Light\<rparr>"
| "toneProfiles Educational =
    \<lparr>hook =
       [''Here is how to simplify your content workflow.'',
        ''Let'' @ rsquo @ ''s break down a smarter way to plan your videos.'',
        ''Stop guessing what to post'' @ mdash @ ''follow this framework.''],
     support =
       [''Structure your message with concise talking points and visuals.'',
        ''Automated editing keeps your video polished and on-brand.'',
        ''Optimize watch time with pacing tuned per segment.''],
     close =
       [''Put this playbook to work on your next post.'',
        ''Level-up your consistency without burning out.'',
        ''Teach, inspire, and convert with videos that land.''],
     overlay_profile = Dark\<rparr>"
| "toneProfiles Playful =
    \<lparr>hook =
       [''Let'' @ rsquo @ ''s turn your bold ideas into scroll-stopping reels.'',
        ''Bring the fun back into posting with effortless automation.'',
        ''Your audience is ready'' @ mdash @ ''let'' @ rsquo @ ''s surprise them today.''],
     support =
       [''Auto-generated scenes keep the energy upbeat.'',
        ''Switch between hooks, payoffs, and CTAs seamlessly.'',
        ''Dynamic backgrounds do the heavy lifting for you.''],
     close =
       [''It is time to drop your next viral moment.'',
        ''Press publish and own the spotlight.'',
        ''Stay playful, stay consistent, stay memorable.''],
     overlay_profile = Light\<rparr>"
| "toneProfiles Direct =
    \<lparr>hook =
       [''Stop losing time editing videos from scratch.'',
        ''Here is the automation stack your Instagram needs.'',
        ''Hit publish with confidence on every campaign.''],
     support =
       [''AI-assisted scripts map directly to compelling visuals.'',
        ''Batch-create videos, then auto-schedule them on Instagram.'',
        ''Analytics-ready chapters let you track what resonates.''],
     close =
       [''Plug this system into your workflow today.'',
        ''Scale your posting cadence without sacrificing quality.'',
        ''Own your niche with consistent, high-impact content.''],
     overlay_profile = Dark\<rparr>"

fun durationsByLength :: "BriefLength \<Rightarrow> rat list" where
  "durationsByLength Short = [4, 4, 5]"
| "durationsByLength Medium = [4, 5, 6, 5]"
| "durationsByLength Long = [4, 5, 6, 4, 6]"

text \<open>\<open>a || b\<close> on strings: the empty string is the only falsy one.\<close>

definition or_else :: "string \<Rightarrow> string \<Rightarrow> string" where
  "or_else a b = (if a = [] then b else a)"

text \<open>The tone as the string the template literal interpolates.\<close>

fun tone_string :: "VideoTone \<Rightarrow> string" where
  "tone_string Inspirational = ''inspirational''"
| "tone_string Educational = ''educational''"
| "tone_string Playful = ''playful''"
| "tone_string Direct = ''direct''"

definition supportingDetails :: "(StoryBrief \<Rightarrow> string) list" where
  "supportingDetails =
    [\<lambda>brief. ''Built specifically for '' @ or_else (audience brief) ''modern creators''
        @ '', every scene focuses on '' @ or_else (callToAction brief) ''your CTA'' @ ''.'',
     \<lambda>brief. ''Optimized pacing keeps watch-time high even on ''
        @ (if length_brief brief = Short then ''snackable'' else ''longer'') @ '' clips.'',
     \<lambda>_. ''Smart overlays auto-balance contrast so captions always stay readable.'',
     \<lambda>_. ''Export-ready for Instagram Reels, Stories, and carousel covers.'',
     \<lambda>brief. ''Fine-tuned tone to match a '' @ tone_string (tone brief)
        @ '' voice without extra revisions.'']"

text \<open>
  \<open>pick\<close> reads \<open>Math.random()\<close>, a number \<open>r\<close> with \<open>0 \<le> r < 1\<close>; the model takes
  the number drawn as an argument.
\<close>

definition pick :: "'a list \<Rightarrow> rat \<Rightarrow> 'a" where
  "pick items r = items ! nat \<lfloor>r * of_nat (length items)\<rfloor>"

definition pickGradient :: "rat \<Rightarrow> BackgroundStyle" where
  "pickGradient r = Gradient (snd (pick gradients r))"

text \<open>
  \<open>generateStoryboard\<close>. The ambient randomness is explicit: \<open>random k\<close> is the value of
  the \<open>k\<close>-th call of \<open>Math.random()\<close> (each scene draws its narration first and its
  gradient second) and \<open>uuid\<close> is the result of \<open>crypto.randomUUID()\<close>.
\<close>

definition generateStoryboard :: "(nat \<Rightarrow> rat) \<Rightarrow> string \<Rightarrow> StoryBrief \<Rightarrow> Scene list" where
  "generateStoryboard random uuid brief =
    (let toneProfile = toneProfiles (tone brief);
         durations = durationsByLength (length_brief brief);
         baseIdSegment = (case split_on CHR ''-'' uuid of [] \<Rightarrow> [] | seg # _ \<Rightarrow> seg)
     in map (\<lambda>(duration, index).
          let ident = baseIdSegment @ ''-'' @ show_nat index in
          if index = 0 then
            \<lparr>id_scene = ident,
             title = or_else (idea brief) ''Idea Launchpad'',
             narration = pick (hook toneProfile) (random (2 * index)),
             supportingPoint = (supportingDetails ! (index mod length supportingDetails)) brief,
             duration = duration,
             background = pickGradient (random (2 * index + 1)),
             overlay = overlay_profile toneProfile,
             cta = None\<rparr>
          else if index = length durations - 1 then
            \<lparr>id_scene = ident,
             title = ''Close & Convert'',
             narration = pick (close toneProfile) (random (2 * index)),
             supportingPoint =
               (if callToAction brief \<noteq> [] then ''Next step: '' @ callToAction brief
                else ''Drop your CTA here before publishing.''),
             duration = duration,
             background = pickGradient (random (2 * index + 1)),
             overlay = overlay_profile toneProfile,
             cta = Some (callToAction brief)\<rparr>
          else
            \<lparr>id_scene = ident,
             title = (if index = 1 then ''Show The Payoff'' else ''Keep The Energy''),
             narration = pick (support toneProfile) (random (2 * index)),
             supportingPoint = (supportingDetails ! (index mod length supportingDetails)) brief,
             duration = duration,
             background = pickGradient (random (2 * index + 1)),
             overlay = overlay_profile toneProfile,
             cta = None\<rparr>)
        (zip durations [0..<length durations]))"

section \<open>Frame renderer (renderSceneToFrame, src/lib/storyboard.ts)\<close>

text \<open>
  What is thrown: \<open>new Error(message)\<close>, or the \<open>SyntaxError\<close> exception of the canvas for
  a colour string it cannot parse.
\<close>

datatype error = Error string | SyntaxError string

text \<open>A loaded \<open>HTMLImageElement\<close>: its source and its dimensions.\<close>

record HTMLImage =
  src :: string
  width_image :: rat
  height_image :: rat

text \<open>
  The canvas is modelled by the drawing calls it received, each with the context state it
  was made under. A fill style is a CSS colour string or a linear gradient with its
  colour stops (offset and colour) in the order they were added. An assignment to
  \<open>fillStyle\<close> is recorded with the string assigned.
\<close>

datatype FillStyle =
    CssColor string
  | LinearGradient rat rat rat rat "(rat \<times> string) list"

datatype DrawOp =
    FillRect FillStyle rat rat rat rat
  | FillText FillStyle string string string string rat rat
  | DrawImage HTMLImage rat rat rat rat
  | DrawCanvas rat rat "DrawOp list" rat rat rat rat rat rat rat rat

text \<open>
  \<open>FillText style font textAlign textBaseline text x y\<close>;
  \<open>DrawImage image dx dy dw dh\<close>;
  \<open>DrawCanvas w h ops sx sy sw sh dx dy dw dh\<close> draws a region of another canvas of size
  \<open>w\<close> by \<open>h\<close> that received \<open>ops\<close>.
\<close>

record Ctx =
  fillStyle :: FillStyle
  font :: string
  textAlign :: string
  textBaseline :: string
  ops :: "DrawOp list"

text \<open>A fresh 2D context, with the defaults of the canvas API.\<close>

definition new_ctx :: Ctx where
  "new_ctx = \<lparr>fillStyle = CssColor ''#000000'', font = ''10px sans-serif'',
              textAlign = ''start'', textBaseline = ''alphabetic'', ops = []\<rparr>"

definition fillRect :: "Ctx \<Rightarrow> rat \<Rightarrow> rat \<Rightarrow> rat \<Rightarrow> rat \<Rightarrow> Ctx" where
  "fillRect ctx x y w h = ctx\<lparr>ops := ops ctx @ [FillRect (fillStyle ctx) x y w h]\<rparr>"

definition fillText :: "Ctx \<Rightarrow> string \<Rightarrow> rat \<Rightarrow> rat \<Rightarrow> Ctx" where
  "fillText ctx text x y =
     ctx\<lparr>ops := ops ctx @ [FillText (fillStyle ctx) (font ctx) (textAlign ctx) (textBaseline ctx) text x y]\<rparr>"

text \<open>
  What the browser provides: whether \<open>getContext('2d')\<close> yields a context (for the frame
  canvas and for the temporary canvas of an image background), the width
  \<open>measureText\<close> reports for a text under a font, the outcome of loading an image
  (\<open>None\<close> when \<open>onerror\<close> fires), \<open>String.prototype.toUpperCase\<close>, and whether a string
  parses as a CSS colour.
\<close>

record Browser =
  frameContext :: bool
  tmpContext :: bool
  measureText :: "string \<Rightarrow> string \<Rightarrow> rat"
  imageLoad :: "string \<Rightarrow> HTMLImage option"
  toUpperCase :: "string \<Rightarrow> string"
  parseColor :: "string \<Rightarrow> bool"

record RenderOptions =
  width_opt :: "rat option"
  height_opt :: "rat option"
  fontFamily_opt :: "string option"

text \<open>\<open>Required<RenderOptions>\<close>: every option present.\<close>

record RequiredOptions =
  width_of :: rat
  height_of :: rat
  fontFamily_of :: string

definition defaultOptions :: RequiredOptions where
  "defaultOptions =
     \<lparr>width_of = 1080, height_of = 1920,
      fontFamily_of = [CHR 0x22] @ ''Inter'' @ [CHR 0x22] @ '', '' @ [CHR 0x22]
        @ ''Helvetica Neue'' @ [CHR 0x22] @ '', Helvetica, Arial, sans-serif''\<rparr>"

text \<open>\<open>{ ...defaults, ...options }\<close>: an option that is present replaces the default.\<close>

definition mergeOptions :: "RequiredOptions \<Rightarrow> RenderOptions \<Rightarrow> RequiredOptions" where
  "mergeOptions defaults options =
     \<lparr>width_of = (case width_opt options of None \<Rightarrow> width_of defaults | Some w \<Rightarrow> w),
      height_of = (case height_opt options of None \<Rightarrow> height_of defaults | Some h \<Rightarrow> h),
      fontFamily_of = (case fontFamily_opt options of None \<Rightarrow> fontFamily_of defaults | Some f \<Rightarrow> f)\<rparr>"

record Palette =
  heading :: string
  body :: string
  accent :: string

fun overlayColors :: "Overlay \<Rightarrow> Palette" where
  "overlayColors Light =
     \<lparr>heading = ''#F8FAFC'', body = ''#E2E8F0'', accent = ''rgba(15, 23, 42, 0.55)''\<rparr>"
| "overlayColors Dark =
     \<lparr>heading = ''#0F172A'', body = ''#1E293B'', accent = ''rgba(248, 250, 252, 0.55)''\<rparr>"

text \<open>
  \<open>wrapText\<close>. The body of the \<open>forEach\<close> over the words is \<open>wrap_word\<close>, on the pair of
  the line being filled and the lines committed so far.
\<close>

definition wrap_word :: "(string \<Rightarrow> rat) \<Rightarrow> rat \<Rightarrow> string \<times> string list \<Rightarrow> string \<Rightarrow> string \<times> string list" where
  "wrap_word widthOf maxWidth st word =
     (let line = fst st; lines = snd st; testLine = line @ word @ '' '' in
      if widthOf testLine > maxWidth \<and> line \<noteq> [] then (word @ '' '', lines @ [trim line])
      else (testLine, lines))"

definition wrapText :: "Browser \<Rightarrow> Ctx \<Rightarrow> string \<Rightarrow> rat \<Rightarrow> rat \<Rightarrow> string list \<times> rat" where
  "wrapText browser ctx text maxWidth lineHeight =
     (let words = split_on CHR '' '' text;
          st = foldl (wrap_word (measureText browser (font ctx)) maxWidth) ([], []) words;
          lines = (if fst st \<noteq> [] then snd st @ [trim (fst st)] else snd st)
      in (lines, of_nat (length lines) * lineHeight))"

definition loadImage :: "Browser \<Rightarrow> string \<Rightarrow> error + HTMLImage" where
  "loadImage browser url =
     (case imageLoad browser url of
        None \<Rightarrow> Inl (Error (''Failed to load image '' @ url))
      | Some img \<Rightarrow> Inr img)"

definition fallbackStops :: "string list" where
  "fallbackStops = [''#0f172a'', ''#1e293b'', ''#3b82f6'']"

text \<open>The constant \<open>colors\<close> of the gradient branch of \<open>drawBackground\<close>.\<close>

definition gradientColors :: "string \<Rightarrow> string list" where
  "gradientColors v =
     (let match = map trim (split_on CHR '','' (replace_first '')'' [] (replace_first ''linear-gradient('' [] v)))
      in if length match \<ge> 3 then map (\<lambda>token. trim (strip_percent token)) (drop 1 match)
         else fallbackStops)"

text \<open>The stops \<open>addColorStop\<close> receives: colour \<open>index\<close> at \<open>index / max (n - 1) 1\<close>.\<close>

definition colorStops :: "string list \<Rightarrow> (rat \<times> string) list" where
  "colorStops colors =
     map (\<lambda>(color, index). (of_nat index / of_nat (max (length colors - 1) 1), color))
       (zip colors [0..<length colors])"

text \<open>
  \<open>colors.forEach((color, index) => gradient.addColorStop(offset, color))\<close>:
  \<open>addColorStop\<close> throws \<open>SyntaxError\<close> when the colour cannot be parsed, which ends the
  loop at the first such colour. (The offsets lie between 0 and 1, so it never throws
  for an offset.) The second argument holds the stops added so far.
\<close>

fun addColorStops :: "Browser \<Rightarrow> (rat \<times> string) list \<Rightarrow> (rat \<times> string) list
      \<Rightarrow> error + (rat \<times> string) list" where
  "addColorStops browser added [] = Inr added"
| "addColorStops browser added ((offset, color) # rest) =
     (if parseColor browser color then addColorStops browser (added @ [(offset, color)]) rest
      else Inl (SyntaxError color))"

text \<open>
  \<open>drawBackground\<close>. In the image branch the picture is scaled to cover the canvas
  (a loaded image has positive dimensions) through a temporary canvas.
\<close>

definition drawBackground :: "Browser \<Rightarrow> Ctx \<Rightarrow> Scene \<Rightarrow> rat \<Rightarrow> rat \<Rightarrow> error + Ctx" where
  "drawBackground browser ctx scene width height =
     (case background scene of
        Gradient v \<Rightarrow>
          (case addColorStops browser [] (colorStops (gradientColors v)) of
             Inl e \<Rightarrow> Inl e
           | Inr stops \<Rightarrow>
               let gradient = LinearGradient 0 0 width height stops
               in Inr (fillRect (ctx\<lparr>fillStyle := gradient\<rparr>) 0 0 width height))
      | Color v \<Rightarrow> Inr (fillRect (ctx\<lparr>fillStyle := CssColor v\<rparr>) 0 0 width height)
      | Image v \<Rightarrow>
          (case loadImage browser v of
             Inl e \<Rightarrow> Inl e
           | Inr img \<Rightarrow>
               let ratio = max (width / width_image img) (height / height_image img);
                   targetWidth = width_image img * ratio;
                   targetHeight = height_image img * ratio;
                   offsetX = (targetWidth - width) / 2;
                   offsetY = (targetHeight - height) / 2
               in if \<not> tmpContext browser
                  then Inl (Error ''Cannot initialize canvas context for background image'')
                  else Inr (ctx\<lparr>ops := ops ctx @
                         [DrawCanvas targetWidth targetHeight
                            [DrawImage img 0 0 targetWidth targetHeight]
                            offsetX offsetY width height 0 0 width height]\<rparr>)))"

text \<open>A frame: the canvas that \<open>toDataURL('image/png')\<close> serialises, as size and drawing calls.\<close>

record Frame =
  frame_width :: rat
  frame_height :: rat
  frame_ops :: "DrawOp list"

text \<open>\<open>lines.forEach((line, index) => ctx.fillText(line, x, y0 + index * lineHeight))\<close>.\<close>

definition fillLines :: "Ctx \<Rightarrow> string list \<Rightarrow> rat \<Rightarrow> rat \<Rightarrow> rat \<Rightarrow> Ctx" where
  "fillLines ctx lines x y0 lineHeight =
     foldl (\<lambda>c (line, index). fillText c line x (y0 + of_nat index * lineHeight))
       ctx (zip lines [0..<length lines])"

text \<open>
  The part of \<open>renderSceneToFrame\<close> between the background and the test of \<open>scene.cta\<close>:
  the overlay panel and the three text blocks. It returns the context and the bottom of
  the supporting block, \<open>supportingTop + supportingMetrics.totalHeight\<close>.
\<close>

definition drawTextBlocks :: "Browser \<Rightarrow> Ctx \<Rightarrow> Scene \<Rightarrow> rat \<Rightarrow> rat \<Rightarrow> string \<Rightarrow> Ctx \<times> rat" where
  "drawTextBlocks browser ctx0 scene width height fontFamily =
     (let colors = overlayColors (overlay scene);
          paddingX = width * (8 / 100);
          paddingTop = height * (15 / 100);
          ctx1 = fillRect (ctx0\<lparr>fillStyle := CssColor (accent colors)\<rparr>)
                   paddingX (paddingTop - 40) (width - paddingX * 2) (height * (55 / 100));
          ctx2 = ctx1\<lparr>fillStyle := CssColor (heading colors),
                      font := ''700 '' @ show_int (math_round (width * (6 / 100))) @ ''px '' @ fontFamily,
                      textBaseline := ''top''\<rparr>;
          headingMetrics = wrapText browser ctx2 (toUpperCase browser (title scene))
                             (width - paddingX * 2 - 80) (of_int (math_round (width * (7 / 100))));
          ctx3 = fillLines ctx2 (fst headingMetrics) (paddingX + 40) paddingTop
                   (of_int (math_round (width * (7 / 100))));
          bodyTop = paddingTop + snd headingMetrics + height * (4 / 100);
          ctx4 = ctx3\<lparr>font := ''500 '' @ show_int (math_round (width * (45 / 1000))) @ ''px '' @ fontFamily,
                      fillStyle := CssColor (body colors)\<rparr>;
          narrationMetrics = wrapText browser ctx4 (narration scene)
                               (width - paddingX * 2 - 80) (of_int (math_round (width * (55 / 1000))));
          ctx5 = fillLines ctx4 (fst narrationMetrics) (paddingX + 40) bodyTop
                   (of_int (math_round (width * (55 / 1000))));
          ctx6 = ctx5\<lparr>font := ''400 '' @ show_int (math_round (width * (35 / 1000))) @ ''px '' @ fontFamily,
                      fillStyle := CssColor (heading colors)\<rparr>;
          supportingTop = bodyTop + snd narrationMetrics + height * (3 / 100);
          supportingMetrics = wrapText browser ctx6 (supportingPoint scene)
                                (width - paddingX * 2 - 80) (of_int (math_round (width * (45 / 1000))));
          ctx7 = fillLines ctx6 (fst supportingMetrics) (paddingX + 40) supportingTop
                   (of_int (math_round (width * (45 / 1000))))
      in (ctx7, supportingTop + snd supportingMetrics))"

text \<open>
  The body of \<open>if (scene.cta)\<close>: the button rectangle and the centred text. \<open>textBottom\<close>
  is the bottom of the supporting block.
\<close>

definition drawCta :: "Ctx \<Rightarrow> Overlay \<Rightarrow> string \<Rightarrow> rat \<Rightarrow> rat \<Rightarrow> string \<Rightarrow> rat \<Rightarrow> Ctx" where
  "drawCta ctx ov ctaText width height fontFamily textBottom =
     (let ctaY = textBottom + height * (5 / 100);
          buttonWidth = width * (6 / 10);
          buttonHeight = of_int (math_round (height * (7 / 100)));
          buttonX = width / 2 - buttonWidth / 2;
          ctx1 = fillRect (ctx\<lparr>fillStyle := CssColor (if ov = Light then ''rgba(15, 23, 42, 0.85)'' else ''#F8FAFC'')\<rparr>)
                   buttonX ctaY buttonWidth buttonHeight;
          ctx2 = ctx1\<lparr>fillStyle := CssColor (if ov = Light then ''#F8FAFC'' else ''#0F172A''),
                      font := ''700 '' @ show_int (math_round (width * (4 / 100))) @ ''px '' @ fontFamily,
                      textAlign := ''center'',
                      textBaseline := ''middle''\<rparr>;
          ctx3 = fillText ctx2 ctaText (width / 2) (ctaY + buttonHeight / 2)
      in ctx3\<lparr>textAlign := ''left'', textBaseline := ''alphabetic''\<rparr>)"

text \<open>
  \<open>renderSceneToFrame\<close>. The test \<open>if (scene.cta)\<close> is false for an absent \<open>cta\<close> and
  for the empty string.
\<close>

definition renderSceneToFrame :: "Browser \<Rightarrow> Scene \<Rightarrow> RenderOptions \<Rightarrow> error + Frame" where
  "renderSceneToFrame browser scene options =
     (let merged = mergeOptions defaultOptions options;
          width = width_of merged;
          height = height_of merged;
          fontFamily = fontFamily_of merged
      in if \<not> frameContext browser then Inl (Error ''Unable to create canvas context'')
         else (case drawBackground browser new_ctx scene width height of
                 Inl e \<Rightarrow> Inl e
               | Inr ctx \<Rightarrow>
                   let laid = drawTextBlocks browser ctx scene width height fontFamily;
                       ctx' = (case cta scene of
                                 None \<Rightarrow> fst laid
                               | Some ctaText \<Rightarrow>
                                   if ctaText \<noteq> []
                                   then drawCta (fst laid) (overlay scene) ctaText
                                          width height fontFamily (snd laid)
                                   else fst laid)
                   in Inr \<lparr>frame_width = width, frame_height = height, frame_ops = ops ctx'\<rparr>))"

text \<open>No options given: \<open>renderSceneToFrame(scene)\<close>.\<close>

definition noOptions :: RenderOptions where
  "noOptions = \<lparr>width_opt = None, height_opt = None, fontFamily_opt = None\<rparr>"

section \<open>Video assembler (useVideoGenerator, src/app/api/upload/route.ts)\<close>

text \<open>
  \<open>x.toFixed(2)\<close> (for a magnitude below \<open>10^21\<close>): the sign, then the nearest multiple
  of one hundredth, a tie going to the larger magnitude, with two decimals.
\<close>

definition toFixed2 :: "rat \<Rightarrow> string" where
  "toFixed2 x =
     (let n = nat \<lfloor>\<bar>x\<bar> * 100 + 1 / 2\<rfloor>
      in (if x < 0 then ''-'' else [])
         @ show_nat (n div 100) @ ''.'' @ padStart 2 CHR ''0'' (show_nat (n mod 100)))"

text \<open>\<open>Number(x.toFixed(2))\<close>.\<close>

definition toFixed2_number :: "rat \<Rightarrow> rat" where
  "toFixed2_number x = (if x < 0 then - 1 else 1) * of_int \<lfloor>\<bar>x\<bar> * 100 + 1 / 2\<rfloor> / 100"

definition is_alnum :: "char \<Rightarrow> bool" where
  "is_alnum c = (c \<in> set ''abcdefghijklmnopqrstuvwxyzABCDEFGHIJKLMNOPQRSTUVWXYZ0123456789'')"

text \<open>
  \<open>getExtension\<close>: the match of \<open>/\.[a-zA-Z0-9]+$/\<close> can only start at the last dot of the
  name, and exists when what follows that dot is non-empty and alphanumeric.
\<close>

definition getExtension :: "string \<Rightarrow> string" where
  "getExtension name =
     (let suffix = rev (takeWhile (\<lambda>c. c \<noteq> CHR ''.'') (rev name))
      in if CHR ''.'' \<in> set name \<and> suffix \<noteq> [] \<and> list_all is_alnum suffix
         then CHR ''.'' # suffix else ''.mp3'')"

text \<open>The content of a file of the encoder's file system: a rendered frame or raw bytes.\<close>

datatype FileData = Png Frame | Bytes string

record AudioFile =
  name_audio :: string
  data_audio :: string

record GenerateOptions =
  scenes :: "Scene list"
  onProgress :: bool
  audioFile :: "AudioFile option"
  outputName :: "string option"

text \<open>\<open>onProgress\<close> tells whether the caller passed a progress listener.\<close>

record GeneratedVideo =
  url :: string
  fileName :: string
  file_video :: "string \<times> FileData"

text \<open>
  The encoder (\<open>@ffmpeg/ffmpeg\<close>) and the rest of the runtime are outside the repository.
  An encoder instance is a value of type \<open>'fs\<close>; every operation on it may throw, and a
  call that throws leaves the instance as it was. \<open>ffmpeg_run\<close> also returns the ratios
  the encoder passed to the progress handler during the run.
\<close>

record 'fs Runtime =
  createFFmpeg :: "'fs"
  ffmpeg_load :: "'fs \<Rightarrow> error + 'fs"
  fs_readdir :: "'fs \<Rightarrow> string \<Rightarrow> error + string list"
  fs_unlink :: "'fs \<Rightarrow> string \<Rightarrow> error + 'fs"
  fs_writeFile :: "'fs \<Rightarrow> string \<Rightarrow> FileData \<Rightarrow> error + 'fs"
  fs_readFile :: "'fs \<Rightarrow> string \<Rightarrow> error + FileData"
  ffmpeg_run :: "'fs \<Rightarrow> string list \<Rightarrow> rat list \<times> (error + 'fs)"
  dateNow :: nat
  createObjectURL :: "FileData \<Rightarrow> string"

text \<open>The state of the hook: the ref, the three React states, and the flag of the effect.\<close>

record 'fs Hook =
  ffmpegRef :: "'fs option"
  isReady :: bool
  isBusy :: bool
  progress :: rat
  cancelled :: bool

definition initialHook :: "'fs Hook" where
  "initialHook = \<lparr>ffmpegRef = None, isReady = False, isBusy = False, progress = 0, cancelled = False\<rparr>"

text \<open>
  The effect that loads the encoder, as the steps between its suspension points:
  \<open>ImportResolved\<close> is the return of \<open>await import(...)\<close>, after which the instance is
  created and stored in the ref; \<open>LoadSettled\<close> is the return of
  \<open>await ffmpegInstance.load()\<close>, resolved or rejected; \<open>Unmounted\<close> is the cleanup.
\<close>

datatype LoadEvent = ImportResolved | LoadSettled | Unmounted

fun load_step :: "'fs Runtime \<Rightarrow> 'fs Hook \<Rightarrow> LoadEvent \<Rightarrow> 'fs Hook" where
  "load_step rt h ImportResolved = h\<lparr>ffmpegRef := Some (createFFmpeg rt)\<rparr>"
| "load_step rt h LoadSettled =
     (case ffmpegRef h of
        None \<Rightarrow> h
      | Some ffmpeg \<Rightarrow>
          (case ffmpeg_load rt ffmpeg of
             Inr ffmpeg' \<Rightarrow> (if \<not> cancelled h then h\<lparr>ffmpegRef := Some ffmpeg', isReady := True\<rparr>
                             else h\<lparr>ffmpegRef := Some ffmpeg'\<rparr>)
           | Inl e \<Rightarrow> (if \<not> cancelled h then h\<lparr>isReady := False\<rparr> else h)))"
| "load_step rt h Unmounted = h\<lparr>cancelled := True\<rparr>"

text \<open>
  What a call of \<open>generate\<close> does to the outside, in order: calls of the progress
  listener, calls of \<open>renderSceneToFrame\<close> (by scene index), and calls of the encoder.
\<close>

datatype Effect =
    Progress rat
  | RenderFrame nat
  | FsReaddir string
  | FsUnlink string
  | FsWriteFile string FileData
  | FsReadFile string
  | FfmpegRun "string list"

definition report :: "bool \<Rightarrow> rat \<Rightarrow> Effect list" where
  "report listener v = (if listener then [Progress v] else [])"

text \<open>\<open>`frame-${String(index).padStart(2, '0')}.png`\<close>.\<close>

definition frameName :: "nat \<Rightarrow> string" where
  "frameName index = ''frame-'' @ padStart 2 CHR ''0'' (show_nat index) @ ''.png''"

text \<open>The cleanup loop: an \<open>unlink\<close> that throws is ignored.\<close>

fun unlink_files :: "'fs Runtime \<Rightarrow> string list \<Rightarrow> 'fs \<times> Effect list \<Rightarrow> 'fs \<times> Effect list" where
  "unlink_files rt [] st = st"
| "unlink_files rt (f # files) (ffmpeg, effs) =
     unlink_files rt files
       ((case fs_unlink rt ffmpeg (''/'' @ f) of Inl _ \<Rightarrow> ffmpeg | Inr ffmpeg' \<Rightarrow> ffmpeg'),
        effs @ [FsUnlink (''/'' @ f)])"

text \<open>
  The loop over the scenes, on the scenes still to render paired with their indices. The
  state is the encoder, the effects so far and \<open>fileListLines\<close>; the first component of
  the result is the error thrown, if any.
\<close>

fun render_frames :: "'fs Runtime \<Rightarrow> Browser \<Rightarrow> bool \<Rightarrow> nat \<Rightarrow> (Scene \<times> nat) list
      \<Rightarrow> 'fs \<times> Effect list \<times> string list \<Rightarrow> error option \<times> 'fs \<times> Effect list \<times> string list" where
  "render_frames rt browser listener count [] st = (None, st)"
| "render_frames rt browser listener count ((scene, index) # rest) (ffmpeg, effs, fileListLines) =
     (case renderSceneToFrame browser scene noOptions of
        Inl e \<Rightarrow> (Some e, ffmpeg, effs @ [RenderFrame index], fileListLines)
      | Inr img \<Rightarrow>
          (case fs_writeFile rt ffmpeg (frameName index) (Png img) of
             Inl e \<Rightarrow>
               (Some e, ffmpeg, effs @ [RenderFrame index, FsWriteFile (frameName index) (Png img)],
                fileListLines)
           | Inr ffmpeg' \<Rightarrow>
               render_frames rt browser listener count rest
                 (ffmpeg',
                  effs @ [RenderFrame index, FsWriteFile (frameName index) (Png img)]
                    @ report listener (of_nat index / of_nat count * 50),
                  fileListLines @ [''file '' @ [CHR 0x27] @ frameName index @ [CHR 0x27],
                                   ''duration '' @ toFixed2 (duration scene)])))"

definition encodeArgs :: "string option \<Rightarrow> string list" where
  "encodeArgs audioPath =
     (case audioPath of
        Some path \<Rightarrow>
          [''-f'', ''concat'', ''-safe'', ''0'', ''-i'', ''frames.txt'', ''-i'', path,
           ''-c:v'', ''libx264'', ''-pix_fmt'', ''yuv420p'', ''-c:a'', ''aac'', ''-shortest'',
           ''output.mp4'']
      | None \<Rightarrow>
          [''-f'', ''concat'', ''-safe'', ''0'', ''-i'', ''frames.txt'',
           ''-c:v'', ''libx264'', ''-pix_fmt'', ''yuv420p'', ''output.mp4''])"

text \<open>
  The \<open>try\<close> block of \<open>generate\<close>, from the cleanup to the return. The result is the
  video or the error thrown, the encoder, the value of the \<open>progress\<close> state, and the
  effects.
\<close>

definition generate_try :: "'fs Runtime \<Rightarrow> Browser \<Rightarrow> 'fs \<Rightarrow> GenerateOptions \<Rightarrow> string
      \<Rightarrow> (error + GeneratedVideo) \<times> 'fs \<times> rat \<times> Effect list" where
  "generate_try rt browser ffmpeg0 opts outName =
     (let n = length (scenes opts) in
      case fs_readdir rt ffmpeg0 ''/'' of
        Inl e \<Rightarrow> (Inl e, ffmpeg0, 0, [FsReaddir ''/''])
      | Inr existing \<Rightarrow>
          let cleaned = unlink_files rt (filter (\<lambda>f. f \<noteq> ''.'' \<and> f \<noteq> ''..'') existing)
                          (ffmpeg0, [FsReaddir ''/'']);
              looped = render_frames rt browser (onProgress opts) n (zip (scenes opts) [0..<n])
                         (fst cleaned, snd cleaned, [])
          in (case looped of
                (Some e, ffmpeg1, effs1, _) \<Rightarrow> (Inl e, ffmpeg1, 0, effs1)
              | (None, ffmpeg1, effs1, fileListLines1) \<Rightarrow>
                  let lastFrame = frameName (n - 1);
                      fileListLines = fileListLines1 @ [''file '' @ [CHR 0x27] @ lastFrame @ [CHR 0x27]];
                      manifest = Bytes (join [CHR 0x0A] fileListLines);
                      effs2 = effs1 @ [FsWriteFile ''frames.txt'' manifest]
                  in (case fs_writeFile rt ffmpeg1 ''frames.txt'' manifest of
                        Inl e \<Rightarrow> (Inl e, ffmpeg1, 0, effs2)
                      | Inr ffmpeg2 \<Rightarrow>
                          let audioPath = map_option (\<lambda>a. ''audio'' @ getExtension (name_audio a)) (audioFile opts);
                              audioWrite = (case audioFile opts of
                                  None \<Rightarrow> (Inr ffmpeg2, effs2)
                                | Some a \<Rightarrow>
                                    (fs_writeFile rt ffmpeg2 (''audio'' @ getExtension (name_audio a)) (Bytes (data_audio a)),
                                     effs2 @ [FsWriteFile (''audio'' @ getExtension (name_audio a)) (Bytes (data_audio a))]))
                          in (case audioWrite of
                                (Inl e, effs3) \<Rightarrow> (Inl e, ffmpeg2, 0, effs3)
                              | (Inr ffmpeg3, effs3) \<Rightarrow>
                                  let ran = ffmpeg_run rt ffmpeg3 (encodeArgs audioPath);
                                      prog = foldl (\<lambda>p ratio. toFixed2_number (ratio * 100)) 0 (fst ran);
                                      effs4 = effs3 @ [FfmpegRun (encodeArgs audioPath)]
                                  in (case snd ran of
                                        Inl e \<Rightarrow> (Inl e, ffmpeg3, prog, effs4)
                                      | Inr ffmpeg4 \<Rightarrow>
                                          (case fs_readFile rt ffmpeg4 ''output.mp4'' of
                                             Inl e \<Rightarrow> (Inl e, ffmpeg4, prog, effs4 @ [FsReadFile ''output.mp4''])
                                           | Inr data \<Rightarrow>
                                               (Inr \<lparr>url = createObjectURL rt data, fileName = outName,
                                                     file_video = (outName, data)\<rparr>,
                                                ffmpeg4, 100,
                                                effs4 @ [FsReadFile ''output.mp4''] @ report (onProgress opts) 100)))))))"

text \<open>
  \<open>generate\<close>: the two guards, then the \<open>try\<close> block under \<open>setBusy(true)\<close>, with
  \<open>setBusy(false)\<close> in the \<open>finally\<close>.
\<close>

definition generate :: "'fs Runtime \<Rightarrow> Browser \<Rightarrow> 'fs Hook \<Rightarrow> GenerateOptions
      \<Rightarrow> (error + GeneratedVideo) \<times> 'fs Hook \<times> Effect list" where
  "generate rt browser h opts =
     (let outName = (case outputName opts of
                       None \<Rightarrow> ''ai-video-'' @ show_nat (dateNow rt) @ ''.mp4''
                     | Some name \<Rightarrow> name)
      in case ffmpegRef h of
           None \<Rightarrow> (Inl (Error ''FFmpeg is not ready yet''), h, [])
         | Some ffmpeg \<Rightarrow>
             if scenes opts = [] then (Inl (Error ''No scenes to render''), h, [])
             else (case generate_try rt browser ffmpeg opts outName of
                     (res, ffmpeg', prog, effs) \<Rightarrow>
                       (res,
                        h\<lparr>ffmpegRef := Some ffmpeg', isBusy := False, progress := prog\<rparr>,
                        report (onProgress opts) 0 @ effs)))"

section \<open>Example inputs\<close>

definition exampleUuid :: string where
  "exampleUuid = ''1a2b3c4d-0000-4000-8000-000000000000''"

definition launchBrief :: StoryBrief where
  "launchBrief = \<lparr>idea = ''Launch'', audience = ''creators'', tone = Direct,
                  callToAction = ''Join now'', length_brief = Short\<rparr>"

definition noCtaBrief :: StoryBrief where
  "noCtaBrief = \<lparr>idea = ''Launch'', audience = ''creators'', tone = Direct,
                 callToAction = [], length_brief = Short\<rparr>"

text \<open>A colour in hexadecimal notation: \<open>#\<close> and 3, 4, 6 or 8 hexadecimal digits.\<close>

definition hexColor :: "string \<Rightarrow> bool" where
  "hexColor s =
     (case s of
        [] \<Rightarrow> False
      | c # ds \<Rightarrow> c = CHR ''#'' \<and> length ds \<in> {3, 4, 6, 8}
                 \<and> list_all (\<lambda>d. d \<in> set ''0123456789abcdefABCDEF'') ds)"

text \<open>
  A browser whose font gives every character the width 10, that loads no image and that
  parses the hexadecimal colours only.
\<close>

definition monoBrowser :: Browser where
  "monoBrowser = \<lparr>frameContext = True, tmpContext = True,
                  measureText = (\<lambda>f t. 10 * of_nat (length t)),
                  imageLoad = (\<lambda>u. None), toUpperCase = (\<lambda>t. t),
                  parseColor = hexColor\<rparr>"

definition imageScene :: Scene where
  "imageScene = \<lparr>id_scene = ''s-0'', title = ''Launch'', narration = ''Go'', supportingPoint = ''Now'',
                 duration = 4, background = Image ''https://example.com/a.png'', overlay = Light,
                 cta = None\<rparr>"

text \<open>Two scenes on a flat colour, without and with a call to action.\<close>

definition plainScene :: Scene where
  "plainScene = \<lparr>id_scene = ''s-1'', title = ''Launch'', narration = ''Go'', supportingPoint = ''Now'',
                 duration = 4, background = Color ''#000'', overlay = Light, cta = None\<rparr>"

definition ctaScene :: Scene where
  "ctaScene = \<lparr>id_scene = ''s-2'', title = ''Launch'', narration = ''Go'', supportingPoint = ''Now'',
                 duration = 5, background = Color ''#000'', overlay = Light, cta = Some ''Join now''\<rparr>"

text \<open>A gradient whose two colour positions are empty.\<close>

definition emptyStopsScene :: Scene where
  "emptyStopsScene = \<lparr>id_scene = ''s-3'', title = ''Launch'', narration = ''Go'', supportingPoint = ''Now'',
                 duration = 4, background = Gradient ''linear-gradient(135deg, , )'', overlay = Light,
                 cta = None\<rparr>"

text \<open>A gradient value without any comma.\<close>

definition noCommaScene :: Scene where
  "noCommaScene = \<lparr>id_scene = ''s-4'', title = ''Launch'', narration = ''Go'', supportingPoint = ''Now'',
                 duration = 4, background = Gradient ''not a gradient'', overlay = Light,
                 cta = None\<rparr>"

section \<open>Observations on frames\<close>

text \<open>
  The drawing calls of the call-to-action button, as the body of \<open>if (scene.cta)\<close> makes
  them: the rectangle, then the text, centred in it.
\<close>

definition ctaButton :: "Overlay \<Rightarrow> string \<Rightarrow> rat \<Rightarrow> rat \<Rightarrow> string \<Rightarrow> rat \<Rightarrow> DrawOp list" where
  "ctaButton ov ctaText width height fontFamily textBottom =
     [FillRect (CssColor (if ov = Light then ''rgba(15, 23, 42, 0.85)'' else ''#F8FAFC''))
        (width / 2 - width * (6 / 10) / 2) (textBottom + height * (5 / 100))
        (width * (6 / 10)) (of_int (math_round (height * (7 / 100)))),
      FillText (CssColor (if ov = Light then ''#F8FAFC'' else ''#0F172A''))
        (''700 '' @ show_int (math_round (width * (4 / 100))) @ ''px '' @ fontFamily)
        ''center'' ''middle'' ctaText
        (width / 2)
        (textBottom + height * (5 / 100) + of_int (math_round (height * (7 / 100))) / 2)]"

text \<open>
  The strings \<open>wrapText\<close> measures from the second word on as long as it commits no
  line: the first \<open>k\<close> words of the text, each followed by a space, for \<open>k\<close> from 2 to
  the number of words.
\<close>

definition testLines :: "string \<Rightarrow> string list" where
  "testLines text =
     (let words = split_on CHR '' '' text
      in map (\<lambda>k. concat (map (\<lambda>w. w @ '' '') (take k words))) [2..<Suc (length words)])"

text \<open>A text drawn with \<open>textAlign = 'center'\<close>; only the button's text is.\<close>

fun centredText :: "DrawOp \<Rightarrow> bool" where
  "centredText (FillText style f align baseline t x y) = (align = ''center'')"
| "centredText _ = False"

text \<open>A context that has drawn no centred text and would not centre the next one.\<close>

definition uncentred :: "Ctx \<Rightarrow> bool" where
  "uncentred ctx = (textAlign ctx \<noteq> ''center'' \<and> list_all (\<lambda>op. \<not> centredText op) (ops ctx))"

section \<open>Observations on a call of generate\<close>

text \<open>The values passed to the progress listener, in order.\<close>

fun progressValues :: "Effect list \<Rightarrow> rat list" where
  "progressValues [] = []"
| "progressValues (Progress v # effs) = v # progressValues effs"
| "progressValues (e # effs) = progressValues effs"

text \<open>The directives of the concat manifest.\<close>

definition isFileDirective :: "string \<Rightarrow> bool" where
  "isFileDirective l = prefix ''file '' l"

definition isDurationDirective :: "string \<Rightarrow> bool" where
  "isDurationDirective l = prefix ''duration '' l"

text \<open>
  The lines of the manifest for a list of scenes: for each scene in order the \<open>file\<close> line
  of its frame and the \<open>duration\<close> line of its duration, then the \<open>file\<close> line of the
  last frame once more.
\<close>

definition manifestEntry :: "Scene \<times> nat \<Rightarrow> string list" where
  "manifestEntry p =
     [''file '' @ [CHR 0x27] @ frameName (snd p) @ [CHR 0x27],
      ''duration '' @ toFixed2 (duration (fst p))]"

definition manifestLines :: "Scene list \<Rightarrow> string list" where
  "manifestLines ss =
     concat (map manifestEntry (zip ss [0..<length ss]))
     @ [''file '' @ [CHR 0x27] @ frameName (length ss - 1) @ [CHR 0x27]]"

text \<open>An encoder that accepts every call, lists no file and reports no progress.\<close>

definition idleRuntime :: "unit Runtime" where
  "idleRuntime =
     \<lparr>createFFmpeg = (),
      ffmpeg_load = (\<lambda>f. Inr ()),
      fs_readdir = (\<lambda>f d. Inr [''.'', ''..'']),
      fs_unlink = (\<lambda>f n. Inr ()),
      fs_writeFile = (\<lambda>f n d. Inr ()),
      fs_readFile = (\<lambda>f n. Inr (Bytes ''mp4'')),
      ffmpeg_run = (\<lambda>f args. ([], Inr ())),
      dateNow = 0,
      createObjectURL = (\<lambda>d. ''blob:video'')\<rparr>"

text \<open>An encoder whose file system and run refuse every call.\<close>

definition refusingRuntime :: "unit Runtime" where
  "refusingRuntime =
     \<lparr>createFFmpeg = (),
      ffmpeg_load = (\<lambda>f. Inr ()),
      fs_readdir = (\<lambda>f d. Inl (Error ''not loaded'')),
      fs_unlink = (\<lambda>f n. Inl (Error ''not loaded'')),
      fs_writeFile = (\<lambda>f n d. Inl (Error ''not loaded'')),
      fs_readFile = (\<lambda>f n. Inl (Error ''not loaded'')),
      ffmpeg_run = (\<lambda>f args. ([], Inl (Error ''not loaded''))),
      dateNow = 0,
      createObjectURL = (\<lambda>d. ''blob:video'')\<rparr>"

definition readyHook :: "unit Hook" where
  "readyHook = \<lparr>ffmpegRef = Some (), isReady = True, isBusy = False, progress = 0, cancelled = False\<rparr>"

definition twoScenes :: GenerateOptions where
  "twoScenes = \<lparr>scenes = [plainScene, ctaScene], onProgress = True, audioFile = None,
                 outputName = Some ''out.mp4''\<rparr>"

definition noScenes :: GenerateOptions where
  "noScenes = \<lparr>scenes = [], onProgress = True, audioFile = None, outputName = Some ''out.mp4''\<rparr>"

section \<open>The storyboard generator\<close>

lemma scene_durations:
  "map duration (generateStoryboard random uuid brief) = durationsByLength (length_brief brief)"
  by (cases "length_brief brief") (simp_all add: generateStoryboard_def Let_def upt_rec)

text \<open>
  C3. For every brief, \<open>generateStoryboard\<close> returns a non-empty list of scenes, 3 for a
  short brief, 4 for a medium one and 5 for a long one; the durations of the scenes are
  those of the duration template of the brief's length, in order, and each is positive.
\<close>

theorem generateStoryboard_template:
  "generateStoryboard random uuid brief \<noteq> [] \<and>
   length (generateStoryboard random uuid brief)
     = (case length_brief brief of Short \<Rightarrow> 3 | Medium \<Rightarrow> 4 | Long \<Rightarrow> 5) \<and>
   map duration (generateStoryboard random uuid brief) = durationsByLength (length_brief brief) \<and>
   (\<forall>s \<in> set (generateStoryboard random uuid brief). 0 < duration s)"
proof -
  let ?ss = "generateStoryboard random uuid brief"
  have d: "map duration ?ss = durationsByLength (length_brief brief)"
    by (rule scene_durations)
  have len: "length ?ss = length (durationsByLength (length_brief brief))"
    using arg_cong [OF d, of length] by simp
  have n: "length ?ss = (case length_brief brief of Short \<Rightarrow> 3 | Medium \<Rightarrow> 4 | Long \<Rightarrow> 5)"
    unfolding len by (cases "length_brief brief") simp_all
  have ne: "?ss \<noteq> []"
    using n by (cases "length_brief brief") auto
  have "\<forall>d \<in> set (map duration ?ss). 0 < d"
    unfolding d by (cases "length_brief brief") simp_all
  then have pos: "\<forall>s \<in> set ?ss. 0 < duration s"
    by simp
  show ?thesis using ne n d pos by blast
qed

theorem generateStoryboard_template_witness:
  "hd (generateStoryboard (\<lambda>k. 0) exampleUuid launchBrief)
     \<in> set (generateStoryboard (\<lambda>k. 0) exampleUuid launchBrief) \<and>
   0 < duration (hd (generateStoryboard (\<lambda>k. 0) exampleUuid launchBrief)) \<and>
   length (generateStoryboard (\<lambda>k. 0) exampleUuid launchBrief) = 3 \<and>
   map duration (generateStoryboard (\<lambda>k. 0) exampleUuid launchBrief) = [4, 4, 5]"
  using generateStoryboard_template [of "\<lambda>k. 0" exampleUuid launchBrief]
  by (simp add: launchBrief_def)

text \<open>
  C7. When the idea of the brief is not empty (in particular when it is not blank), the
  first scene's title is the idea; when the call to action is not empty, the last scene's
  \<open>cta\<close> is the call to action.
\<close>

theorem storyboard_title_and_cta:
  "generateStoryboard random uuid brief \<noteq> [] \<and>
   (idea brief \<noteq> [] \<longrightarrow> title (hd (generateStoryboard random uuid brief)) = idea brief) \<and>
   (callToAction brief \<noteq> [] \<longrightarrow>
      cta (last (generateStoryboard random uuid brief)) = Some (callToAction brief))"
  by (cases "length_brief brief") (simp_all add: generateStoryboard_def Let_def upt_rec or_else_def)

theorem storyboard_title_and_cta_witness:
  "idea launchBrief \<noteq> [] \<and> callToAction launchBrief \<noteq> [] \<and>
   title (hd (generateStoryboard (\<lambda>k. 0) exampleUuid launchBrief)) = ''Launch'' \<and>
   cta (last (generateStoryboard (\<lambda>k. 0) exampleUuid launchBrief)) = Some ''Join now''"
  using storyboard_title_and_cta [of "\<lambda>k. 0" exampleUuid launchBrief]
  by (simp add: launchBrief_def)

section \<open>The frame renderer\<close>

lemma drawBackground_cta:
  "drawBackground browser ctx (scene\<lparr>cta := c\<rparr>) width height
     = drawBackground browser ctx scene width height"
  by (simp add: drawBackground_def)

lemma drawTextBlocks_fields:
  "overlay s = overlay s' \<Longrightarrow> title s = title s' \<Longrightarrow> narration s = narration s' \<Longrightarrow>
   supportingPoint s = supportingPoint s' \<Longrightarrow>
   drawTextBlocks browser ctx s width height ff = drawTextBlocks browser ctx s' width height ff"
  by (simp only: drawTextBlocks_def)

lemma drawTextBlocks_cta:
  "drawTextBlocks browser ctx (scene\<lparr>cta := c\<rparr>) width height ff
     = drawTextBlocks browser ctx scene width height ff"
  by (rule drawTextBlocks_fields) simp_all

text \<open>
  C10. When the call to action of the brief is the empty string, the last scene's \<open>cta\<close>
  is the empty string (present, not absent); and \<open>renderSceneToFrame\<close> gives the same
  result, error or frame, for a scene whose \<open>cta\<close> is the empty string as for the same
  scene without \<open>cta\<close>: nothing of the button is drawn.
\<close>

theorem empty_cta_not_drawn:
  "(callToAction brief = [] \<longrightarrow>
      cta (last (generateStoryboard random uuid brief)) = Some []) \<and>
   renderSceneToFrame browser (scene\<lparr>cta := Some []\<rparr>) options
     = renderSceneToFrame browser (scene\<lparr>cta := None\<rparr>) options"
proof -
  have a: "callToAction brief = [] \<longrightarrow> cta (last (generateStoryboard random uuid brief)) = Some []"
    by (cases "length_brief brief") (simp_all add: generateStoryboard_def Let_def upt_rec)
  have b: "renderSceneToFrame browser (scene\<lparr>cta := Some []\<rparr>) options
     = renderSceneToFrame browser (scene\<lparr>cta := None\<rparr>) options"
    by (simp add: renderSceneToFrame_def Let_def drawBackground_cta drawTextBlocks_cta
          split: sum.split)
  show ?thesis using a b by blast
qed

theorem empty_cta_not_drawn_witness:
  "callToAction noCtaBrief = [] \<and>
   cta (last (generateStoryboard (\<lambda>k. 0) exampleUuid noCtaBrief)) = Some [] \<and>
   renderSceneToFrame monoBrowser (imageScene\<lparr>cta := Some []\<rparr>) noOptions
     = renderSceneToFrame monoBrowser (imageScene\<lparr>cta := None\<rparr>) noOptions"
  using empty_cta_not_drawn [of noCtaBrief "\<lambda>k. 0" exampleUuid monoBrowser imageScene noOptions]
  by (simp add: noCtaBrief_def)

text \<open>
  C8. When the background of a scene is an image whose load fails, \<open>renderSceneToFrame\<close>
  (having obtained its canvas context, without which no load is started) returns no
  frame: it raises the error \<open>Failed to load image\<close> followed by the URL.
\<close>

theorem image_load_failure_propagates:
  assumes "background scene = Image u" and "imageLoad browser u = None" and "frameContext browser"
  shows "renderSceneToFrame browser scene options = Inl (Error (''Failed to load image '' @ u))"
  using assms by (simp add: renderSceneToFrame_def drawBackground_def loadImage_def Let_def)

theorem image_load_failure_propagates_witness:
  "background imageScene = Image ''https://example.com/a.png'' \<and>
   imageLoad monoBrowser ''https://example.com/a.png'' = None \<and>
   frameContext monoBrowser \<and>
   renderSceneToFrame monoBrowser imageScene noOptions
     = Inl (Error ''Failed to load image https://example.com/a.png'')"
proof -
  have 1: "background imageScene = Image ''https://example.com/a.png''"
    by (simp add: imageScene_def)
  have 2: "imageLoad monoBrowser ''https://example.com/a.png'' = None"
    by (simp add: monoBrowser_def)
  have 3: "frameContext monoBrowser"
    by (simp add: monoBrowser_def)
  show ?thesis
    using 1 2 3 image_load_failure_propagates [OF 1 2 3, of noOptions] by simp
qed

lemma uncentred_fillRect: "uncentred ctx \<Longrightarrow> uncentred (fillRect ctx x y w h)"
  by (simp add: uncentred_def fillRect_def)

lemma uncentred_fillText: "uncentred ctx \<Longrightarrow> uncentred (fillText ctx t x y)"
  by (simp add: uncentred_def fillText_def)

lemma uncentred_foldl:
  "uncentred ctx \<Longrightarrow> uncentred (foldl (\<lambda>c (line, index). fillText c line x (g index)) ctx ps)"
  by (induction ps arbitrary: ctx) (auto simp: uncentred_fillText)

lemma uncentred_fillLines: "uncentred ctx \<Longrightarrow> uncentred (fillLines ctx ls x y lh)"
  unfolding fillLines_def by (rule uncentred_foldl)

lemma uncentred_fillStyle: "uncentred ctx \<Longrightarrow> uncentred (ctx\<lparr>fillStyle := v\<rparr>)"
  by (simp add: uncentred_def)

lemma uncentred_font: "uncentred ctx \<Longrightarrow> uncentred (ctx\<lparr>font := v\<rparr>)"
  by (simp add: uncentred_def)

lemma uncentred_textBaseline: "uncentred ctx \<Longrightarrow> uncentred (ctx\<lparr>textBaseline := v\<rparr>)"
  by (simp add: uncentred_def)

lemmas uncentred_intros = uncentred_fillRect uncentred_fillLines uncentred_fillStyle
  uncentred_font uncentred_textBaseline

lemma uncentred_drawTextBlocks:
  "uncentred ctx \<Longrightarrow> uncentred (fst (drawTextBlocks browser ctx scene width height ff))"
  unfolding drawTextBlocks_def Let_def fst_conv
  by (intro uncentred_intros)

lemma uncentred_drawBackground:
  "uncentred ctx \<Longrightarrow> drawBackground browser ctx scene width height = Inr ctx' \<Longrightarrow> uncentred ctx'"
  by (auto simp: drawBackground_def Let_def uncentred_def fillRect_def loadImage_def
      split: BackgroundStyle.splits sum.splits option.splits if_splits)

lemma ops_drawCta:
  "ops (drawCta ctx ov t width height ff tb) = ops ctx @ ctaButton ov t width height ff tb"
  by (simp add: drawCta_def ctaButton_def Let_def fillRect_def fillText_def)

lemma last_ctaButton:
  "\<exists>style fnt x y. last (ctaButton ov t w h f tb) = FillText style fnt ''center'' ''middle'' t x y"
  unfolding ctaButton_def by (intro exI) (simp only: last.simps list.simps if_False if_True simp_thms)

lemma render_color_ok:
  "frameContext browser \<Longrightarrow> background scene = Color v \<Longrightarrow>
   \<exists>frame. renderSceneToFrame browser scene options = Inr frame"
  by (simp add: renderSceneToFrame_def drawBackground_def Let_def)

text \<open>
  C9. Let \<open>renderSceneToFrame\<close> return a frame, at width \<open>w\<close>, height \<open>h\<close> and font family
  \<open>f\<close>. If the scene has no \<open>cta\<close>, the frame holds the drawing calls of the background,
  the panel and the three text blocks and nothing else, and none of its texts is centred:
  no button. If the scene's \<open>cta\<close> is a non-empty string, the frame holds the same calls
  followed by the button: its rectangle and the \<open>cta\<close> text centred in it.
\<close>

theorem cta_button_drawn_iff:
  assumes "renderSceneToFrame browser scene options = Inr frame"
    and "w = width_of (mergeOptions defaultOptions options)"
    and "h = height_of (mergeOptions defaultOptions options)"
    and "f = fontFamily_of (mergeOptions defaultOptions options)"
  shows "\<exists>ctx. drawBackground browser new_ctx scene w h = Inr ctx \<and>
           (cta scene = None \<longrightarrow>
              frame_ops frame = ops (fst (drawTextBlocks browser ctx scene w h f)) \<and>
              list_all (\<lambda>op. \<not> centredText op) (frame_ops frame)) \<and>
           (\<forall>t. cta scene = Some t \<and> t \<noteq> [] \<longrightarrow>
              frame_ops frame = ops (fst (drawTextBlocks browser ctx scene w h f))
                @ ctaButton (overlay scene) t w h f (snd (drawTextBlocks browser ctx scene w h f)))"
proof -
  from assms obtain ctx where bg: "drawBackground browser new_ctx scene w h = Inr ctx"
    and fr: "frame_ops frame =
       ops (case cta scene of
              None \<Rightarrow> fst (drawTextBlocks browser ctx scene w h f)
            | Some t \<Rightarrow>
                if t \<noteq> []
                then drawCta (fst (drawTextBlocks browser ctx scene w h f)) (overlay scene) t w h f
                       (snd (drawTextBlocks browser ctx scene w h f))
                else fst (drawTextBlocks browser ctx scene w h f))"
    by (auto simp: renderSceneToFrame_def Let_def split: if_splits sum.splits)
  have "uncentred new_ctx"
    by (simp add: uncentred_def new_ctx_def)
  then have "uncentred ctx"
    using bg by (rule uncentred_drawBackground)
  then have "uncentred (fst (drawTextBlocks browser ctx scene w h f))"
    by (rule uncentred_drawTextBlocks)
  then have un: "list_all (\<lambda>op. \<not> centredText op) (ops (fst (drawTextBlocks browser ctx scene w h f)))"
    by (simp add: uncentred_def)
  show ?thesis
    using bg fr un by (auto simp: ops_drawCta)
qed

theorem cta_button_drawn_iff_witness:
  "(\<exists>frame. renderSceneToFrame monoBrowser plainScene noOptions = Inr frame \<and>
        cta plainScene = None \<and> list_all (\<lambda>op. \<not> centredText op) (frame_ops frame)) \<and>
   (\<exists>frame. renderSceneToFrame monoBrowser ctaScene noOptions = Inr frame \<and>
        cta ctaScene = Some ''Join now'' \<and>
        (\<exists>style fnt x y. last (frame_ops frame) = FillText style fnt ''center'' ''middle'' ''Join now'' x y))"
proof -
  obtain fr1 where 1: "renderSceneToFrame monoBrowser plainScene noOptions = Inr fr1"
    using render_color_ok [of monoBrowser plainScene "''#000''" noOptions]
    by (auto simp: monoBrowser_def plainScene_def)
  obtain fr2 where 2: "renderSceneToFrame monoBrowser ctaScene noOptions = Inr fr2"
    using render_color_ok [of monoBrowser ctaScene "''#000''" noOptions]
    by (auto simp: monoBrowser_def ctaScene_def)
  have c1: "cta plainScene = None"
    by (simp add: plainScene_def)
  have c2: "cta ctaScene = Some ''Join now''"
    by (simp add: ctaScene_def)
  have a: "list_all (\<lambda>op. \<not> centredText op) (frame_ops fr1)"
    using cta_button_drawn_iff [OF 1 refl refl refl] c1 by auto
  obtain pre ov w h f tb where "frame_ops fr2 = pre @ ctaButton ov ''Join now'' w h f tb"
    using cta_button_drawn_iff [OF 2 refl refl refl] c2 by auto
  then have "last (frame_ops fr2) = last (ctaButton ov ''Join now'' w h f tb)"
    by (simp add: ctaButton_def)
  then have b: "\<exists>style fnt x y. last (frame_ops fr2) = FillText style fnt ''center'' ''middle'' ''Join now'' x y"
    using last_ctaButton [of ov "''Join now''" w h f tb] by simp
  show ?thesis using 1 2 c1 c2 a b by blast
qed

subsection \<open>The gradient fallback\<close>

lemma split_on_nonempty: "split_on sep s \<noteq> []"
  by (induction s) (auto split: list.splits)

lemma length_split_on: "length (split_on sep s) = Suc (length (filter (\<lambda>c. c = sep) s))"
  by (induction s) (auto split: list.splits simp: split_on_nonempty)

lemma filter_replace_first:
  "\<forall>c \<in> set pat. \<not> P c \<Longrightarrow> filter P (replace_first pat [] s) = filter P s"
proof (induction s)
  case Nil
  then show ?case by simp
next
  case (Cons c cs)
  show ?case
  proof (cases "prefix pat (c # cs)")
    case True
    then obtain rest where r: "c # cs = pat @ rest"
      by (auto simp: prefix_def)
    have "replace_first pat [] (c # cs) = drop (length pat) (c # cs)"
      using True by simp
    also have "\<dots> = rest"
      unfolding r by simp
    finally have "replace_first pat [] (c # cs) = rest" .
    moreover have "filter P (pat @ rest) = filter P rest"
      using Cons.prems by (simp add: filter_empty_conv)
    ultimately show ?thesis using r by simp
  next
    case False
    then show ?thesis using Cons by simp
  qed
qed

lemma colorStops_fallback:
  "colorStops fallbackStops = [(0, ''#0f172a''), (1 / 2, ''#1e293b''), (1, ''#3b82f6'')]"
  by (simp add: colorStops_def fallbackStops_def upt_rec)

lemma gradientColors_few:
  assumes "length (filter (\<lambda>c. c = CHR '','') v) < 2"
  shows "gradientColors v = fallbackStops"
proof -
  have "filter (\<lambda>c. c = CHR '','') (replace_first '')'' [] (replace_first ''linear-gradient('' [] v))
          = filter (\<lambda>c. c = CHR '','') v"
    by (simp add: filter_replace_first)
  then have "length (split_on CHR '','' (replace_first '')'' [] (replace_first ''linear-gradient('' [] v))) < 3"
    using assms by (simp add: length_split_on)
  then show ?thesis
    by (simp add: gradientColors_def Let_def)
qed

lemma gradientColors_emptyStops: "gradientColors ''linear-gradient(135deg, , )'' = [[], []]"
  by code_simp

lemma addColorStops_parsed:
  "list_all (\<lambda>p. parseColor browser (snd p)) stops \<Longrightarrow>
   addColorStops browser added stops = Inr (added @ stops)"
  by (induction stops arbitrary: added) auto

lemma colorStops_first: "colorStops (c # cs) = (0, c) # tl (colorStops (c # cs))"
  by (simp add: colorStops_def upt_rec)

lemma drawBackground_first_stop:
  assumes "background scene = Gradient v" and "gradientColors v = c # cs"
    and "\<not> parseColor browser c"
  shows "drawBackground browser ctx scene width height = Inl (SyntaxError c)"
proof -
  have "addColorStops browser [] (colorStops (c # cs)) = Inl (SyntaxError c)"
    using assms(3) by (subst colorStops_first) simp
  then show ?thesis
    using assms(1,2) by (simp add: drawBackground_def)
qed

text \<open>
  C6 is what the comment \<open>fallback gradient stops\<close> announces, and the code falls short of
  it. The value \<open>linear-gradient(135deg, , )\<close> has no usable colour stop: the parser's two
  stops are empty strings. As it has three comma-separated parts, \<open>drawBackground\<close> does
  not fall back to the default gradient: it passes the empty string to \<open>addColorStop\<close>,
  and in every browser that does not parse the empty string as a colour it raises
  \<open>SyntaxError\<close> and paints nothing.
\<close>

theorem gradient_empty_stop_raises:
  assumes "background scene = Gradient ''linear-gradient(135deg, , )''"
    and "\<not> parseColor browser []"
  shows "drawBackground browser ctx scene width height = Inl (SyntaxError [])"
  using assms(1) gradientColors_emptyStops assms(2) by (rule drawBackground_first_stop)

theorem gradient_empty_stop_raises_witness:
  "background emptyStopsScene = Gradient ''linear-gradient(135deg, , )'' \<and>
   \<not> parseColor monoBrowser [] \<and>
   drawBackground monoBrowser new_ctx emptyStopsScene 1080 1920 = Inl (SyntaxError [])"
proof -
  have 1: "background emptyStopsScene = Gradient ''linear-gradient(135deg, , )''"
    by (simp add: emptyStopsScene_def)
  have 2: "\<not> parseColor monoBrowser []"
    by (simp add: monoBrowser_def hexColor_def)
  show ?thesis
    using 1 2 gradient_empty_stop_raises [OF 1 2, of new_ctx 1080 1920] by simp
qed

text \<open>
  The same happens on the generator's own palette: the closing parenthesis removed is the
  first one of the value, and the commas inside \<open>rgba(...)\<close> split it, so that the first
  stop of each palette gradient is the opening of an \<open>rgba\<close> call. A browser that parses
  none of these raises on every palette gradient.
\<close>

lemma palette_first_stops:
  "map (\<lambda>g. take 1 (gradientColors (snd g))) gradients
     = [[''rgba(17''], [''rgba(248''], [''rgba(124''], [''rgba(251''], [''rgba(15'']]"
  by code_simp

lemma palette_gradient_raises:
  assumes "k < length gradients" and "background scene = Gradient (snd (gradients ! k))"
    and "\<forall>c \<in> set [''rgba(17'', ''rgba(248'', ''rgba(124'', ''rgba(251'', ''rgba(15'']. \<not> parseColor browser c"
  shows "\<exists>c. drawBackground browser ctx scene width height = Inl (SyntaxError c)"
proof -
  let ?firsts = "[''rgba(17'', ''rgba(248'', ''rgba(124'', ''rgba(251'', ''rgba(15'']"
  have len: "length gradients = 5"
    by (simp add: gradients_def)
  have "take 1 (gradientColors (snd (gradients ! k))) = [?firsts ! k]"
    using arg_cong [OF palette_first_stops, of "\<lambda>xs. xs ! k"] assms(1) len
    by (cases k rule: nat.exhaust; simp add: nth_Cons split: nat.splits)
  then obtain cs where gc: "gradientColors (snd (gradients ! k)) = (?firsts ! k) # cs"
    by (cases "gradientColors (snd (gradients ! k))") auto
  have "?firsts ! k \<in> set ?firsts"
    using assms(1) len by (intro nth_mem) simp
  then have "\<not> parseColor browser (?firsts ! k)"
    using assms(3) by blast
  from drawBackground_first_stop [OF assms(2) gc this] show ?thesis
    by blast
qed

text \<open>
  What holds of the fallback: it depends on the number of comma-separated parts only. For
  a gradient value with fewer than two commas (fewer than three parts), in a browser that
  parses the three default colours, \<open>drawBackground\<close> raises no error and fills the whole
  canvas with the default gradient: \<open>#0f172a\<close> at 0, \<open>#1e293b\<close> at 1/2 and \<open>#3b82f6\<close>
  at 1.
\<close>

lemma gradient_fallback_few_parts:
  assumes "background scene = Gradient v" and "length (filter (\<lambda>c. c = CHR '','') v) < 2"
    and "list_all (parseColor browser) fallbackStops"
  shows "drawBackground browser ctx scene width height =
           Inr (ctx\<lparr>fillStyle := LinearGradient 0 0 width height
                                  [(0, ''#0f172a''), (1 / 2, ''#1e293b''), (1, ''#3b82f6'')],
                    ops := ops ctx @
                      [FillRect (LinearGradient 0 0 width height
                                  [(0, ''#0f172a''), (1 / 2, ''#1e293b''), (1, ''#3b82f6'')])
                         0 0 width height]\<rparr>)"
proof -
  have "list_all (\<lambda>p. parseColor browser (snd p)) (colorStops fallbackStops)"
    using assms(3) unfolding colorStops_fallback by (simp add: fallbackStops_def)
  then have "addColorStops browser [] (colorStops fallbackStops) = Inr ([] @ colorStops fallbackStops)"
    by (rule addColorStops_parsed)
  then have st: "addColorStops browser [] (colorStops fallbackStops)
                   = Inr [(0, ''#0f172a''), (1 / 2, ''#1e293b''), (1, ''#3b82f6'')]"
    unfolding colorStops_fallback by simp
  show ?thesis
    using assms(1,2)
    by (simp add: drawBackground_def gradientColors_few st fillRect_def Let_def)
qed

lemma gradient_fallback_example:
  "drawBackground monoBrowser new_ctx noCommaScene 1080 1920 =
     Inr (new_ctx\<lparr>fillStyle := LinearGradient 0 0 1080 1920
                                  [(0, ''#0f172a''), (1 / 2, ''#1e293b''), (1, ''#3b82f6'')],
                  ops := [FillRect (LinearGradient 0 0 1080 1920
                                  [(0, ''#0f172a''), (1 / 2, ''#1e293b''), (1, ''#3b82f6'')])
                         0 0 1080 1920]\<rparr>)"
proof -
  have 1: "background noCommaScene = Gradient ''not a gradient''"
    by (simp add: noCommaScene_def)
  have 2: "length (filter (\<lambda>c. c = CHR '','') ''not a gradient'') < 2"
    by simp
  have 3: "list_all (parseColor monoBrowser) fallbackStops"
    by (simp add: monoBrowser_def hexColor_def fallbackStops_def)
  show ?thesis
    using gradient_fallback_few_parts [OF 1 2 3, of new_ctx 1080 1920]
    by (simp add: new_ctx_def)
qed

subsection \<open>Word wrap\<close>

lemma concat_split_on: "concat (map (\<lambda>w. w @ [sep]) (split_on sep s)) = s @ [sep]"
  by (induction s) (auto split: list.splits simp: split_on_nonempty)

lemma space_length_le: "space_length ws s \<le> length s"
  by (auto simp: space_length_def find_Some_iff prefix_length_le split: option.splits)

lemma space_length_snoc:
  assumes "s \<noteq> []" and "\<forall>w \<in> set ws. last w = c \<longrightarrow> length w \<le> 1"
  shows "space_length ws (s @ [c]) = space_length ws s"
proof -
  have "find (\<lambda>w. prefix w (s @ [c])) ws = find (\<lambda>w. prefix w s) ws"
  proof (rule find_cong [OF refl])
    fix w assume w: "w \<in> set ws"
    have "w \<noteq> s @ [c]"
    proof
      assume e: "w = s @ [c]"
      then have "last w = c" and "2 \<le> length w"
        using assms(1) by (simp_all add: Suc_le_eq)
      then show False using assms(2) w by force
    qed
    then show "prefix w (s @ [c]) = prefix w s"
      by simp
  qed
  then show ?thesis
    by (simp add: space_length_def)
qed

lemma strip_spaces_Nil: "strip_spaces ws [] = []"
  using space_length_le [of ws "[]"] by (subst strip_spaces.simps) simp

lemma space_length_single:
  assumes "[] \<notin> set ws" and "[c] \<in> set ws"
  shows "space_length ws [c] = 1"
proof -
  have "\<not> (\<forall>w \<in> set ws. \<not> prefix w [c])"
    using assms(2) by auto
  then obtain w where f: "find (\<lambda>w. prefix w [c]) ws = Some w"
    by (cases "find (\<lambda>w. prefix w [c]) ws") (auto simp: find_None_iff)
  then have "prefix w [c]" and "w \<in> set ws"
    by (auto simp: find_Some_iff)
  then have "w = [c]"
    using assms(1) by (cases w) auto
  then show ?thesis
    using f by (simp add: space_length_def)
qed

lemma strip_spaces_snoc:
  assumes "[] \<notin> set ws" and "\<forall>w \<in> set ws. last w = c \<longrightarrow> length w \<le> 1" and "[c] \<in> set ws"
  shows "strip_spaces ws (s @ [c])
           = (if strip_spaces ws s = [] then [] else strip_spaces ws s @ [c])"
  using assms
proof (induction ws s rule: strip_spaces.induct)
  case (1 ws s)
  show ?case
  proof (cases "s = []")
    case True
    have "strip_spaces ws [c] = strip_spaces ws []"
      using space_length_single [OF "1.prems"(1,3)] by (subst strip_spaces.simps) simp
    then show ?thesis
      using True strip_spaces_Nil [of ws] by simp
  next
    case False
    note sl = space_length_snoc [OF False "1.prems"(2)]
    show ?thesis
    proof (cases "space_length ws s = 0")
      case True
      have "strip_spaces ws s = s"
        using True by (subst strip_spaces.simps) simp
      moreover have "strip_spaces ws (s @ [c]) = s @ [c]"
        using True sl by (subst strip_spaces.simps) simp
      ultimately show ?thesis using False by simp
    next
      case n: False
      have a: "strip_spaces ws s = strip_spaces ws (drop (space_length ws s) s)"
        using n by (subst strip_spaces.simps) simp
      have "strip_spaces ws (s @ [c]) = strip_spaces ws (drop (space_length ws s) (s @ [c]))"
        using n sl by (subst strip_spaces.simps) simp
      also have "drop (space_length ws s) (s @ [c]) = drop (space_length ws s) s @ [c]"
        using space_length_le [of ws s] by simp
      finally show ?thesis
        using "1.IH" [OF n "1.prems"] a by simp
    qed
  qed
qed

lemma strip_rev_space:
  "strip_spaces (map rev whitespace) (CHR '' '' # xs) = strip_spaces (map rev whitespace) xs"
proof -
  have "space_length (map rev whitespace) (CHR '' '' # xs) = 1"
    by (simp add: space_length_def whitespace_def)
  then show ?thesis
    by (subst strip_spaces.simps) simp
qed

lemma trim_snoc_space: "trim (s @ '' '') = trim s"
proof -
  have b: "strip_spaces whitespace (s @ '' '')
             = (if strip_spaces whitespace s = [] then [] else strip_spaces whitespace s @ '' '')"
    by (rule strip_spaces_snoc) (simp_all add: whitespace_def)
  show ?thesis
  proof (cases "strip_spaces whitespace s = []")
    case True
    then show ?thesis using b by (simp add: trim_def)
  next
    case False
    then show ?thesis using b by (simp add: trim_def strip_rev_space)
  qed
qed

lemma foldl_no_wrap:
  "\<forall>k. 1 \<le> k \<and> k \<le> length ws \<longrightarrow> m (line @ concat (map (\<lambda>w. w @ '' '') (take k ws))) \<le> maxW
   \<Longrightarrow> foldl (wrap_word m maxW) (line, []) ws = (line @ concat (map (\<lambda>w. w @ '' '') ws), [])"
proof (induction ws arbitrary: line)
  case Nil
  then show ?case by simp
next
  case (Cons w ws)
  have first: "m (line @ w @ '' '') \<le> maxW"
    using Cons.prems [rule_format, of 1] by simp
  have rest: "\<forall>k. 1 \<le> k \<and> k \<le> length ws \<longrightarrow>
      m ((line @ w @ '' '') @ concat (map (\<lambda>w. w @ '' '') (take k ws))) \<le> maxW"
  proof (intro allI impI)
    fix k assume "1 \<le> k \<and> k \<le> length ws"
    then show "m ((line @ w @ '' '') @ concat (map (\<lambda>w. w @ '' '') (take k ws))) \<le> maxW"
      using Cons.prems [rule_format, of "Suc k"] by simp
  qed
  have "wrap_word m maxW (line, []) w = (line @ w @ '' '', [])"
    using first by (simp add: wrap_word_def Let_def)
  then show ?case
    using Cons.IH [OF rest] by simp
qed

text \<open>
  C5, as stated, fails, in two ways. With a font that gives every character the width 10,
  the text \<open>a b\<close> is 30 wide, under the maximum 35, yet it is wrapped into two lines:
  what is measured is the line with a trailing space, 40 wide. And a text that starts with
  a space, far under the maximum, gives one line without that space, not the input.
\<close>

theorem wrapText_single_line_counterexample:
  "measureText monoBrowser (font new_ctx) ''a b'' < 35 \<and>
   fst (wrapText monoBrowser new_ctx ''a b'' 35 20) = [''a'', ''b''] \<and>
   measureText monoBrowser (font new_ctx) '' a'' < 1000 \<and>
   fst (wrapText monoBrowser new_ctx '' a'' 1000 20) = [''a'']"
  by code_simp

text \<open>
  C5, amended. Let the text have no white space at either end, and let every string
  measured from the second word on, the first \<open>k\<close> words each followed by one space
  (the last of them is the whole text followed by a space), be at most the maximum
  width. Then \<open>wrapText\<close> returns exactly one line, the text itself, and a total
  height of one line height.
\<close>

theorem wrapText_single_line:
  assumes "trim text = text"
    and "\<forall>t \<in> set (testLines text). measureText browser (font ctx) t \<le> maxWidth"
  shows "wrapText browser ctx text maxWidth lineHeight = ([text], lineHeight)"
proof -
  let ?m = "measureText browser (font ctx)"
  let ?f = "\<lambda>w. w @ '' ''"
  obtain w ws where words: "split_on CHR '' '' text = w # ws"
    using split_on_nonempty [of "CHR '' ''" "text"] by (cases "split_on CHR '' '' text") auto
  have step: "wrap_word ?m maxWidth ([], []) w = (w @ '' '', [])"
    by (simp add: wrap_word_def Let_def)
  have fits: "\<forall>k. 1 \<le> k \<and> k \<le> length ws \<longrightarrow>
      ?m ((w @ '' '') @ concat (map ?f (take k ws))) \<le> maxWidth"
  proof (intro allI impI)
    fix k assume k: "1 \<le> k \<and> k \<le> length ws"
    then have "Suc k \<in> set [2..<Suc (length (w # ws))]"
      by auto
    then have "(\<lambda>k. concat (map ?f (take k (w # ws)))) (Suc k)
        \<in> (\<lambda>k. concat (map ?f (take k (w # ws)))) ` set [2..<Suc (length (w # ws))]"
      by (rule imageI)
    then have "concat (map ?f (take (Suc k) (w # ws))) \<in> set (testLines text)"
      unfolding testLines_def Let_def words set_map .
    then show "?m ((w @ '' '') @ concat (map ?f (take k ws))) \<le> maxWidth"
      using assms(2) by auto
  qed
  have "foldl (wrap_word ?m maxWidth) ([], []) (w # ws) = ((w @ '' '') @ concat (map ?f ws), [])"
    using foldl_no_wrap [OF fits] step by simp
  also have "(w @ '' '') @ concat (map ?f ws) = concat (map ?f (split_on CHR '' '' text))"
    unfolding words by simp
  also have "\<dots> = text @ '' ''"
    by (rule concat_split_on)
  finally have st: "foldl (wrap_word ?m maxWidth) ([], []) (split_on CHR '' '' text) = (text @ '' '', [])"
    unfolding words .
  show ?thesis
    using assms(1) by (simp add: wrapText_def Let_def st trim_snoc_space)
qed

theorem wrapText_single_line_witness:
  "trim ''Join now'' = ''Join now'' \<and>
   testLines ''Join now'' = [''Join now ''] \<and>
   measureText monoBrowser (font new_ctx) ''Join now '' \<le> 100 \<and>
   wrapText monoBrowser new_ctx ''Join now'' 100 20 = ([''Join now''], 20)"
proof -
  have 1: "trim ''Join now'' = ''Join now''"
    by code_simp
  have 2: "\<forall>t \<in> set (testLines ''Join now''). measureText monoBrowser (font new_ctx) t \<le> 100"
    by (simp add: testLines_def Let_def monoBrowser_def upt_rec)
  have 3: "testLines ''Join now'' = [''Join now '']"
    by (simp add: testLines_def Let_def upt_rec)
  have 4: "measureText monoBrowser (font new_ctx) ''Join now '' \<le> 100"
    by (simp add: monoBrowser_def)
  show ?thesis
    using 1 3 4 wrapText_single_line [OF 1 2, of 20] by simp
qed

section \<open>The video assembler\<close>

lemma progressValues_append [simp]:
  "progressValues (xs @ ys) = progressValues xs @ progressValues ys"
  by (induction xs rule: progressValues.induct) auto

lemma progressValues_report [simp]:
  "progressValues (report cb v) = (if cb then [v] else [])"
  by (simp add: report_def)

lemma unlink_files_effects:
  "unlink_files rt files (f, effs) = (f', effs') \<Longrightarrow>
   effs' = effs @ map (\<lambda>n. FsUnlink (''/'' @ n)) files"
proof (induction files arbitrary: f effs)
  case Nil
  then show ?case by simp
next
  case (Cons a files)
  from Cons.prems have "unlink_files rt files
      ((case fs_unlink rt f (''/'' @ a) of Inl x \<Rightarrow> f | Inr g \<Rightarrow> g), effs @ [FsUnlink (''/'' @ a)])
      = (f', effs')"
    by simp
  from Cons.IH [OF this] show ?case by simp
qed

text \<open>The loop, when it completes.\<close>

lemma render_frames_done:
  "render_frames rt browser cb n ps (f, effs, ls) = (None, f', effs', ls') \<Longrightarrow>
   ls' = ls @ concat (map manifestEntry ps) \<and>
   progressValues effs' = progressValues effs
      @ (if cb then map (\<lambda>(scene, index). of_nat index / of_nat n * 50) ps else []) \<and>
   (\<forall>(scene, index) \<in> set ps. \<exists>img. renderSceneToFrame browser scene noOptions = Inr img \<and>
       FsWriteFile (frameName index) (Png img) \<in> set effs') \<and>
   set effs \<subseteq> set effs'"
proof (induction ps arbitrary: f effs ls)
  case Nil
  then show ?case by simp
next
  case (Cons p ps)
  obtain scene index where p: "p = (scene, index)" by (cases p)
  from Cons.prems obtain img f1 where
    r: "renderSceneToFrame browser scene noOptions = Inr img" and
    w: "fs_writeFile rt f (frameName index) (Png img) = Inr f1" and
    rest: "render_frames rt browser cb n ps
             (f1, effs @ [RenderFrame index, FsWriteFile (frameName index) (Png img)]
                    @ report cb (of_nat index / of_nat n * 50),
              ls @ [''file '' @ [CHR 0x27] @ frameName index @ [CHR 0x27],
                    ''duration '' @ toFixed2 (duration scene)]) = (None, f', effs', ls')"
    unfolding p by (auto split: sum.splits)
  from Cons.IH [OF rest] show ?case
    unfolding p using r by (auto simp: manifestEntry_def)
qed

text \<open>The loop writes frame files only.\<close>

lemma render_frames_writes:
  "render_frames rt browser cb n ps (f, effs, ls) = (r, f', effs', ls') \<Longrightarrow>
   FsWriteFile name d \<in> set effs' \<Longrightarrow>
   FsWriteFile name d \<in> set effs \<or> (\<exists>i. name = frameName i)"
proof (induction ps arbitrary: f effs ls)
  case Nil
  then show ?case by simp
next
  case (Cons p ps)
  obtain scene index where p: "p = (scene, index)" by (cases p)
  show ?case
  proof (cases "renderSceneToFrame browser scene noOptions")
    case (Inl e)
    then show ?thesis using Cons.prems unfolding p by auto
  next
    case (Inr img)
    show ?thesis
    proof (cases "fs_writeFile rt f (frameName index) (Png img)")
      case (Inl e)
      then show ?thesis using Cons.prems Inr unfolding p by auto
    next
      case (Inr f1)
      with \<open>renderSceneToFrame browser scene noOptions = Inr img\<close> Cons.prems(1)
      have "render_frames rt browser cb n ps
             (f1, effs @ [RenderFrame index, FsWriteFile (frameName index) (Png img)]
                    @ report cb (of_nat index / of_nat n * 50),
              ls @ [''file '' @ [CHR 0x27] @ frameName index @ [CHR 0x27],
                    ''duration '' @ toFixed2 (duration scene)]) = (r, f', effs', ls')"
        unfolding p by simp
      from Cons.IH [OF this Cons.prems(2)] show ?thesis
        by (auto simp: report_def split: if_splits)
    qed
  qed
qed

lemma frameName_not_manifest: "frameName i \<noteq> ''frames.txt''"
  by (simp add: frameName_def)

lemma manifest_written:
  assumes g: "generate_try rt browser f0 opts out = (res, f, p, effs)"
    and m: "FsWriteFile ''frames.txt'' d \<in> set effs"
  shows "d = Bytes (join [CHR 0x0A] (manifestLines (scenes opts))) \<and>
         (\<forall>i < length (scenes opts). \<exists>img.
             renderSceneToFrame browser (scenes opts ! i) noOptions = Inr img \<and>
             FsWriteFile (frameName i) (Png img) \<in> set effs)"
proof (cases "fs_readdir rt f0 ''/''")
  case (Inl e)
  then show ?thesis using g m by (auto simp: generate_try_def)
next
  case (Inr existing)
  let ?n = "length (scenes opts)"
  obtain f1 e1 where cl: "unlink_files rt (filter (\<lambda>f. f \<noteq> ''.'' \<and> f \<noteq> ''..'') existing)
      (f0, [FsReaddir ''/'']) = (f1, e1)"
    by (cases "unlink_files rt (filter (\<lambda>f. f \<noteq> ''.'' \<and> f \<noteq> ''..'') existing) (f0, [FsReaddir ''/''])")
  have e1: "\<And>name d. FsWriteFile name d \<notin> set e1"
    using unlink_files_effects [OF cl] by auto
  obtain r f2 e2 l2 where lp: "render_frames rt browser (onProgress opts) ?n
      (zip (scenes opts) [0..<?n]) (f1, e1, []) = (r, f2, e2, l2)"
    by (metis prod_cases4)
  have e2: "FsWriteFile ''frames.txt'' d \<notin> set e2"
    using render_frames_writes [OF lp, of "''frames.txt''" d] e1 frameName_not_manifest by metis
  show ?thesis
  proof (cases r)
    case (Some e)
    then show ?thesis
      using g m e2 by (auto simp: generate_try_def Inr cl lp)
  next
    case None
    note fin = render_frames_done [OF lp [unfolded None]]
    have l2: "l2 @ [''file '' @ [CHR 0x27] @ frameName (?n - 1) @ [CHR 0x27]] = manifestLines (scenes opts)"
      using fin by (simp add: manifestLines_def)
    have frames: "\<forall>i < ?n. \<exists>img. renderSceneToFrame browser (scenes opts ! i) noOptions = Inr img \<and>
             FsWriteFile (frameName i) (Png img) \<in> set e2"
    proof (intro allI impI)
      fix i assume i: "i < ?n"
      then have "(scenes opts ! i, i) \<in> set (zip (scenes opts) [0..<?n])"
        by (auto simp: in_set_zip)
      with fin show "\<exists>img. renderSceneToFrame browser (scenes opts ! i) noOptions = Inr img \<and>
             FsWriteFile (frameName i) (Png img) \<in> set e2"
        by blast
    qed
    have sub: "set e2 \<subseteq> set effs \<and> (d = Bytes (join [CHR 0x0A] (manifestLines (scenes opts))))"
      using g m e2 unfolding generate_try_def Let_def
      by (auto simp: Inr cl lp None l2 [simplified] report_def
            split: sum.splits option.splits prod.splits if_splits)
    then show ?thesis using frames by blast
  qed
qed

subsection \<open>The concat manifest\<close>

lemma digit_char_not_newline: "d < 10 \<Longrightarrow> digit_char d \<noteq> CHR 0x0A"
proof -
  assume "d < 10"
  then have "digit_char d \<in> set ''0123456789''"
    unfolding digit_char_def by (intro nth_mem) simp
  then show ?thesis by auto
qed

lemma show_nat_no_newline: "CHR 0x0A \<notin> set (show_nat n)"
proof (induction n rule: show_nat.induct)
  case (1 n)
  show ?case
  proof (cases "n < 10")
    case True
    then show ?thesis
      using digit_char_not_newline [of n] by (subst show_nat.simps) auto
  next
    case False
    then show ?thesis
      using 1 digit_char_not_newline [of "n mod 10"] by (subst show_nat.simps) auto
  qed
qed

lemma frameName_padded: "i < 10 \<Longrightarrow> frameName i = ''frame-0'' @ [digit_char i] @ ''.png''"
  by (subst frameName_def, subst show_nat.simps) (simp add: padStart_def)

lemma frameName_no_newline: "CHR 0x0A \<notin> set (frameName i)"
  by (simp add: frameName_def padStart_def show_nat_no_newline)

lemma toFixed2_no_newline: "CHR 0x0A \<notin> set (toFixed2 x)"
  by (simp add: toFixed2_def Let_def padStart_def show_nat_no_newline)

lemma split_on_no_sep: "sep \<notin> set l \<Longrightarrow> split_on sep l = [l]"
  by (induction l) auto

lemma split_on_append_sep:
  "sep \<notin> set l \<Longrightarrow> split_on sep (l @ sep # rest) = l # split_on sep rest"
  by (induction l) auto

lemma split_on_join:
  "ls \<noteq> [] \<Longrightarrow> \<forall>l \<in> set ls. sep \<notin> set l \<Longrightarrow> split_on sep (join [sep] ls) = ls"
proof (induction ls)
  case Nil
  then show ?case by simp
next
  case (Cons x xs)
  show ?case
  proof (cases xs)
    case Nil
    then show ?thesis using Cons.prems by (simp add: split_on_no_sep)
  next
    case (Cons y ys)
    then have "split_on sep (join [sep] xs) = xs"
      using Cons.IH Cons.prems by simp
    then show ?thesis
      using Cons Cons.prems by (simp add: split_on_append_sep)
  qed
qed

lemma manifest_entries_length: "length (concat (map manifestEntry ps)) = 2 * length ps"
  by (induction ps) (auto simp: manifestEntry_def)

lemma manifest_entries_files:
  "length (filter isFileDirective (concat (map manifestEntry ps))) = length ps"
  by (induction ps) (auto simp: isFileDirective_def manifestEntry_def)

lemma manifest_entries_durations:
  "length (filter isDurationDirective (concat (map manifestEntry ps))) = length ps"
  by (induction ps) (auto simp: isDurationDirective_def manifestEntry_def)

lemma manifest_entries_nth:
  "i < length ps \<Longrightarrow>
   concat (map manifestEntry ps) ! (2 * i)
     = ''file '' @ [CHR 0x27] @ frameName (snd (ps ! i)) @ [CHR 0x27] \<and>
   concat (map manifestEntry ps) ! (2 * i + 1)
     = ''duration '' @ toFixed2 (duration (fst (ps ! i)))"
proof (induction ps arbitrary: i)
  case Nil
  then show ?case by simp
next
  case (Cons p ps)
  show ?case
  proof (cases i)
    case 0
    then show ?thesis by (simp add: manifestEntry_def)
  next
    case (Suc j)
    then have "j < length ps" using Cons.prems by simp
    from Cons.IH [OF this] show ?thesis
      unfolding Suc by (simp add: manifestEntry_def)
  qed
qed

lemma manifestLines_length: "length (manifestLines ss) = 2 * length ss + 1"
  by (simp add: manifestLines_def manifest_entries_length)

lemma manifestLines_files: "length (filter isFileDirective (manifestLines ss)) = length ss + 1"
  by (simp add: manifestLines_def manifest_entries_files) (simp add: isFileDirective_def)

lemma manifestLines_durations: "length (filter isDurationDirective (manifestLines ss)) = length ss"
  by (simp add: manifestLines_def manifest_entries_durations) (simp add: isDurationDirective_def)

lemma manifestLines_nth:
  assumes "i < length ss"
  shows "manifestLines ss ! (2 * i) = ''file '' @ [CHR 0x27] @ frameName i @ [CHR 0x27]"
    and "manifestLines ss ! (2 * i + 1) = ''duration '' @ toFixed2 (duration (ss ! i))"
proof -
  let ?ps = "zip ss [0..<length ss]"
  have i: "i < length ?ps" using assms by simp
  have a: "2 * i < 2 * length ?ps" and b: "2 * i + 1 < 2 * length ?ps" using i by auto
  show "manifestLines ss ! (2 * i) = ''file '' @ [CHR 0x27] @ frameName i @ [CHR 0x27]"
    using manifest_entries_nth [OF i] a assms
    by (simp add: manifestLines_def nth_append manifest_entries_length)
  show "manifestLines ss ! (2 * i + 1) = ''duration '' @ toFixed2 (duration (ss ! i))"
    using manifest_entries_nth [OF i] b assms
    by (simp add: manifestLines_def nth_append manifest_entries_length)
qed

lemma manifestLines_last:
  "manifestLines ss ! (2 * length ss) = ''file '' @ [CHR 0x27] @ frameName (length ss - 1) @ [CHR 0x27]"
  by (simp add: manifestLines_def nth_append manifest_entries_length)

lemma manifestLines_no_newline: "\<forall>l \<in> set (manifestLines ss). CHR 0x0A \<notin> set l"
  by (auto simp: manifestLines_def manifestEntry_def frameName_no_newline toFixed2_no_newline)

text \<open>
  C2. Whenever a call of \<open>generate\<close> on \<open>n\<close> scenes writes \<open>frames.txt\<close>, the scenes are
  not empty and the text written is the lines \<open>ls\<close> joined by line feeds (and splits
  back into them), where \<open>ls\<close> has exactly \<open>n\<close> duration directives and \<open>n + 1\<close> file
  directives: for each scene \<open>i\<close>, in order, line \<open>2 i\<close> is the file directive of
  \<open>frameName i\<close>, the name under which the frame of scene \<open>i\<close> was written, and line
  \<open>2 i + 1\<close> is the duration directive of the scene's duration; the last line is the
  file directive of \<open>frameName (n - 1)\<close> again.
\<close>

theorem manifest_shape:
  assumes "generate rt browser h opts = (res, h', effs)"
    and "FsWriteFile ''frames.txt'' d \<in> set effs"
    and "n = length (scenes opts)"
  shows "0 < n \<and>
     (\<exists>ls. d = Bytes (join [CHR 0x0A] ls) \<and> split_on CHR 0x0A (join [CHR 0x0A] ls) = ls \<and>
        length ls = 2 * n + 1 \<and>
        length (filter isDurationDirective ls) = n \<and>
        length (filter isFileDirective ls) = n + 1 \<and>
        (\<forall>i < n. ls ! (2 * i) = ''file '' @ [CHR 0x27] @ frameName i @ [CHR 0x27] \<and>
                  ls ! (2 * i + 1) = ''duration '' @ toFixed2 (duration (scenes opts ! i)) \<and>
                  (\<exists>img. renderSceneToFrame browser (scenes opts ! i) noOptions = Inr img \<and>
                         FsWriteFile (frameName i) (Png img) \<in> set effs)) \<and>
        ls ! (2 * n) = ''file '' @ [CHR 0x27] @ frameName (n - 1) @ [CHR 0x27] \<and>
        ls ! (2 * n) = ls ! (2 * (n - 1)))"
proof -
  from assms(1,2) obtain ffmpeg outName res' f' p' effs' where
    ne: "scenes opts \<noteq> []" and
    t: "generate_try rt browser ffmpeg opts outName = (res', f', p', effs')" and
    e: "effs = report (onProgress opts) 0 @ effs'"
    by (auto simp: generate_def Let_def split: option.splits if_splits prod.splits)
  have "FsWriteFile ''frames.txt'' d \<in> set effs'"
    using assms(2) e by (auto simp: report_def split: if_splits)
  from manifest_written [OF t this]
  have d: "d = Bytes (join [CHR 0x0A] (manifestLines (scenes opts)))"
    and fr: "\<forall>i < n. \<exists>img. renderSceneToFrame browser (scenes opts ! i) noOptions = Inr img \<and>
             FsWriteFile (frameName i) (Png img) \<in> set effs"
    using e assms(3) by auto
  have n: "0 < n" using ne assms(3) by simp
  let ?ls = "manifestLines (scenes opts)"
  have rt: "split_on CHR 0x0A (join [CHR 0x0A] ?ls) = ?ls"
    by (rule split_on_join) (simp_all add: manifestLines_no_newline, simp add: manifestLines_def)
  have lastline: "?ls ! (2 * n) = ?ls ! (2 * (n - 1))"
    using manifestLines_nth(1) [of "n - 1" "scenes opts"] manifestLines_last [of "scenes opts"] n assms(3)
    by simp
  have "d = Bytes (join [CHR 0x0A] ?ls) \<and> split_on CHR 0x0A (join [CHR 0x0A] ?ls) = ?ls \<and>
        length ?ls = 2 * n + 1 \<and>
        length (filter isDurationDirective ?ls) = n \<and>
        length (filter isFileDirective ?ls) = n + 1 \<and>
        (\<forall>i < n. ?ls ! (2 * i) = ''file '' @ [CHR 0x27] @ frameName i @ [CHR 0x27] \<and>
                  ?ls ! (2 * i + 1) = ''duration '' @ toFixed2 (duration (scenes opts ! i)) \<and>
                  (\<exists>img. renderSceneToFrame browser (scenes opts ! i) noOptions = Inr img \<and>
                         FsWriteFile (frameName i) (Png img) \<in> set effs)) \<and>
        ?ls ! (2 * n) = ''file '' @ [CHR 0x27] @ frameName (n - 1) @ [CHR 0x27] \<and>
        ?ls ! (2 * n) = ?ls ! (2 * (n - 1))"
    using d rt lastline fr manifestLines_nth [of _ "scenes opts"] manifestLines_last [of "scenes opts"]
    unfolding assms(3)
    by (simp add: manifestLines_length manifestLines_durations manifestLines_files)
  then show ?thesis using n by blast
qed

lemma twoScenes_run:
  "fst (generate idleRuntime monoBrowser readyHook twoScenes)
     = Inr \<lparr>url = ''blob:video'', fileName = ''out.mp4'', file_video = (''out.mp4'', Bytes ''mp4'')\<rparr> \<and>
   progressValues (snd (snd (generate idleRuntime monoBrowser readyHook twoScenes))) = [0, 0, 25, 100] \<and>
   FsWriteFile ''frames.txt''
     (Bytes (join [CHR 0x0A]
        [''file '' @ [CHR 0x27] @ ''frame-00.png'' @ [CHR 0x27], ''duration 4.00'',
         ''file '' @ [CHR 0x27] @ ''frame-01.png'' @ [CHR 0x27], ''duration 5.00'',
         ''file '' @ [CHR 0x27] @ ''frame-01.png'' @ [CHR 0x27]]))
     \<in> set (snd (snd (generate idleRuntime monoBrowser readyHook twoScenes)))"
  by code_simp

theorem manifest_shape_witness:
  "FsWriteFile ''frames.txt''
     (Bytes (join [CHR 0x0A]
        [''file '' @ [CHR 0x27] @ ''frame-00.png'' @ [CHR 0x27], ''duration 4.00'',
         ''file '' @ [CHR 0x27] @ ''frame-01.png'' @ [CHR 0x27], ''duration 5.00'',
         ''file '' @ [CHR 0x27] @ ''frame-01.png'' @ [CHR 0x27]]))
     \<in> set (snd (snd (generate idleRuntime monoBrowser readyHook twoScenes))) \<and>
   length (filter isDurationDirective
     (split_on CHR 0x0A (join [CHR 0x0A]
        [''file '' @ [CHR 0x27] @ ''frame-00.png'' @ [CHR 0x27], ''duration 4.00'',
         ''file '' @ [CHR 0x27] @ ''frame-01.png'' @ [CHR 0x27], ''duration 5.00'',
         ''file '' @ [CHR 0x27] @ ''frame-01.png'' @ [CHR 0x27]]))) = 2 \<and>
   length (filter isFileDirective
     (split_on CHR 0x0A (join [CHR 0x0A]
        [''file '' @ [CHR 0x27] @ ''frame-00.png'' @ [CHR 0x27], ''duration 4.00'',
         ''file '' @ [CHR 0x27] @ ''frame-01.png'' @ [CHR 0x27], ''duration 5.00'',
         ''file '' @ [CHR 0x27] @ ''frame-01.png'' @ [CHR 0x27]]))) = 3"
proof -
  let ?G = "generate idleRuntime monoBrowser readyHook twoScenes"
  let ?M = "join [CHR 0x0A]
        [''file '' @ [CHR 0x27] @ ''frame-00.png'' @ [CHR 0x27], ''duration 4.00'',
         ''file '' @ [CHR 0x27] @ ''frame-01.png'' @ [CHR 0x27], ''duration 5.00'',
         ''file '' @ [CHR 0x27] @ ''frame-01.png'' @ [CHR 0x27]]"
  have g: "?G = (fst ?G, fst (snd ?G), snd (snd ?G))"
    by simp
  have m: "FsWriteFile ''frames.txt'' (Bytes ?M) \<in> set (snd (snd ?G))"
    using twoScenes_run by blast
  have n: "length (scenes twoScenes) = 2"
    by (simp add: twoScenes_def)
  from manifest_shape [OF g m refl] obtain ls where
    "Bytes ?M = Bytes (join [CHR 0x0A] ls)" and "split_on CHR 0x0A (join [CHR 0x0A] ls) = ls" and
    "length (filter isDurationDirective ls) = length (scenes twoScenes)" and
    "length (filter isFileDirective ls) = length (scenes twoScenes) + 1"
    by blast
  then have "length (filter isDurationDirective (split_on CHR 0x0A ?M)) = 2 \<and>
             length (filter isFileDirective (split_on CHR 0x0A ?M)) = 3"
    using n by simp
  then show ?thesis using m by blast
qed

subsection \<open>Progress\<close>

lemma progressValues_unlinks [simp]: "progressValues (map (\<lambda>n. FsUnlink (g n)) xs) = []"
  by (induction xs) auto

lemma map_zip_index:
  "length xs = length ys \<Longrightarrow> map (\<lambda>(x, i). g i) (zip xs ys) = map g ys"
  by (induction xs ys rule: list_induct2) auto

lemma progress_on_success:
  assumes g: "generate_try rt browser f0 opts out = (Inr video, f, p, effs)"
  shows "progressValues effs =
           (if onProgress opts
            then map (\<lambda>i. of_nat i / of_nat (length (scenes opts)) * 50) [0..<length (scenes opts)] @ [100]
            else [])"
proof (cases "fs_readdir rt f0 ''/''")
  case (Inl e)
  then show ?thesis using g by (auto simp: generate_try_def)
next
  case (Inr existing)
  let ?n = "length (scenes opts)"
  obtain f1 e1 where cl: "unlink_files rt (filter (\<lambda>f. f \<noteq> ''.'' \<and> f \<noteq> ''..'') existing)
      (f0, [FsReaddir ''/'']) = (f1, e1)"
    by (cases "unlink_files rt (filter (\<lambda>f. f \<noteq> ''.'' \<and> f \<noteq> ''..'') existing) (f0, [FsReaddir ''/''])")
  have e1: "progressValues e1 = []"
    using unlink_files_effects [OF cl] by simp
  obtain r f2 e2 l2 where lp: "render_frames rt browser (onProgress opts) ?n
      (zip (scenes opts) [0..<?n]) (f1, e1, []) = (r, f2, e2, l2)"
    by (metis prod_cases4)
  show ?thesis
  proof (cases r)
    case (Some e)
    then show ?thesis
      using g by (auto simp: generate_try_def Inr cl lp)
  next
    case None
    note fin = render_frames_done [OF lp [unfolded None]]
    have "map (\<lambda>(scene, index). of_nat index / of_nat ?n * 50) (zip (scenes opts) [0..<?n])
            = map (\<lambda>i. (of_nat i / of_nat ?n * 50 :: rat)) [0..<?n]"
      by (rule map_zip_index) simp
    then have e2: "progressValues e2 =
        (if onProgress opts then map (\<lambda>i. of_nat i / of_nat ?n * 50) [0..<?n] else [])"
      using fin e1 by simp
    show ?thesis
      using g unfolding generate_try_def Let_def
      by (auto simp: Inr cl lp None e2 split: sum.splits option.splits prod.splits)
  qed
qed

lemma sorted_progress:
  "sorted ((0::rat) # map (\<lambda>i. of_nat i / of_nat n * 50) [0..<n] @ [100])"
proof -
  let ?g = "\<lambda>i. (of_nat i / of_nat n * 50 :: rat)"
  have mono: "\<And>i j. i < j \<Longrightarrow> ?g i \<le> ?g j"
    by (intro mult_right_mono divide_right_mono) simp_all
  have "sorted_wrt (\<lambda>i j. ?g i \<le> ?g j) [0..<n]"
    by (rule sorted_wrt_mono_rel [OF _ sorted_wrt_upt]) (use mono in blast)
  then have s: "sorted (map ?g [0..<n])"
    by (simp add: sorted_map)
  have lo: "\<And>i. 0 \<le> ?g i"
    by simp
  have hi: "\<And>i. i < n \<Longrightarrow> ?g i \<le> 100"
  proof -
    fix i assume "i < n"
    then have "(of_nat i / of_nat n :: rat) \<le> 1"
      by (simp add: divide_le_eq_1)
    then have "?g i \<le> 1 * 50"
      by (intro mult_right_mono) simp_all
    then show "?g i \<le> 100" by simp
  qed
  show ?thesis
    using s lo hi by (auto simp: sorted_append)
qed

text \<open>
  C4. In a call of \<open>generate\<close> that returns a video, the values passed to the progress
  listener are in non-decreasing order and none is negative; when a listener was given
  they are 0, then \<open>i / n * 50\<close> for each scene index \<open>i\<close>, then 100: the first is 0 and
  the last is exactly 100.
\<close>

theorem progress_monotone:
  assumes "generate rt browser h opts = (Inr video, h', effs)"
    and "n = length (scenes opts)"
  shows "sorted (progressValues effs) \<and>
         (\<forall>v \<in> set (progressValues effs). 0 \<le> v) \<and>
         (onProgress opts \<longrightarrow>
            progressValues effs = 0 # map (\<lambda>i. of_nat i / of_nat n * 50) [0..<n] @ [100] \<and>
            hd (progressValues effs) = 0 \<and> last (progressValues effs) = 100)"
proof -
  from assms(1) obtain ffmpeg outName f' p' effs' where
    t: "generate_try rt browser ffmpeg opts outName = (Inr video, f', p', effs')" and
    e: "effs = report (onProgress opts) 0 @ effs'"
    by (auto simp: generate_def Let_def split: option.splits if_splits prod.splits)
  have pv: "progressValues effs =
      (if onProgress opts then 0 # map (\<lambda>i. of_nat i / of_nat n * 50) [0..<n] @ [100] else [])"
    using progress_on_success [OF t] e assms(2) by simp
  have s: "sorted (progressValues effs)"
    unfolding pv using sorted_progress [of n] by simp
  have nn: "\<forall>v \<in> set (progressValues effs). 0 \<le> v"
    unfolding pv by auto
  show ?thesis
    using s nn pv by simp
qed

theorem progress_monotone_witness:
  "fst (generate idleRuntime monoBrowser readyHook twoScenes)
     = Inr \<lparr>url = ''blob:video'', fileName = ''out.mp4'', file_video = (''out.mp4'', Bytes ''mp4'')\<rparr> \<and>
   onProgress twoScenes \<and>
   progressValues (snd (snd (generate idleRuntime monoBrowser readyHook twoScenes))) = [0, 0, 25, 100] \<and>
   sorted (progressValues (snd (snd (generate idleRuntime monoBrowser readyHook twoScenes)))) \<and>
   last (progressValues (snd (snd (generate idleRuntime monoBrowser readyHook twoScenes)))) = 100"
proof -
  let ?G = "generate idleRuntime monoBrowser readyHook twoScenes"
  let ?v = "\<lparr>url = ''blob:video'', fileName = ''out.mp4'', file_video = (''out.mp4'', Bytes ''mp4'')\<rparr>"
  have r: "fst ?G = Inr ?v" and p: "progressValues (snd (snd ?G)) = [0, 0, 25, 100]"
    using twoScenes_run by blast+
  have g: "?G = (Inr ?v, fst (snd ?G), snd (snd ?G))"
    using r by (metis prod.collapse)
  have cb: "onProgress twoScenes"
    by (simp add: twoScenes_def)
  from progress_monotone [OF g refl] cb
  have "sorted (progressValues (snd (snd ?G))) \<and> last (progressValues (snd (snd ?G))) = 100"
    by blast
  then show ?thesis using r p cb by blast
qed

subsection \<open>The guard of generate\<close>

lemma generate_without_instance:
  "ffmpegRef h = None \<Longrightarrow> generate rt browser h opts = (Inl (Error ''FFmpeg is not ready yet''), h, [])"
  by (simp add: generate_def Let_def)

text \<open>
  C1 describes what the message of the guard announces, and the guard falls short of it.
  While \<open>load()\<close> is pending the ref already holds the instance and \<open>isReady\<close> is false.
  In that state, with an encoder that accepts every call, \<open>generate\<close> on no scenes fails
  with \<open>No scenes to render\<close>, not with the not-ready error, and \<open>generate\<close> on two scenes
  passes the guard, calls the listener, reads the directory, renders the frames and
  returns a video. With an encoder that refuses every call, the error returned is the
  encoder's, after the listener was called with 0.
\<close>

theorem generate_while_loading:
  "ffmpegRef (load_step idleRuntime initialHook ImportResolved) = Some () \<and>
   isReady (load_step idleRuntime initialHook ImportResolved) = False \<and>
   generate idleRuntime monoBrowser (load_step idleRuntime initialHook ImportResolved) noScenes
     = (Inl (Error ''No scenes to render''), load_step idleRuntime initialHook ImportResolved, []) \<and>
   fst (generate idleRuntime monoBrowser (load_step idleRuntime initialHook ImportResolved) twoScenes)
     = Inr \<lparr>url = ''blob:video'', fileName = ''out.mp4'', file_video = (''out.mp4'', Bytes ''mp4'')\<rparr> \<and>
   take 3 (snd (snd (generate idleRuntime monoBrowser
                       (load_step idleRuntime initialHook ImportResolved) twoScenes)))
     = [Progress 0, FsReaddir ''/'', RenderFrame 0] \<and>
   generate refusingRuntime monoBrowser (load_step refusingRuntime initialHook ImportResolved) twoScenes
     = (Inl (Error ''not loaded''), load_step refusingRuntime initialHook ImportResolved,
        [Progress 0, FsReaddir ''/''])"
  by code_simp

end
